theory Spec2Isabelle
  imports Main "HOL-Library.Sublist" "HOL-Library.AList" "HOL-Library.Char_ord"
    "HOL-Library.List_Lexorder"
begin

section \<open>Python strings\<close>

text \<open>
  A Python \<open>str\<close> is a sequence of code points. The model is \<open>string\<close>, each \<open>char\<close>
  standing for one code point below 256. \<open>is_space\<close> is the set of those code points
  that \<open>str.strip()\<close> removes (the white space of \<open>str.isspace\<close>): tab, line feed,
  vertical tab, form feed, carriage return, the separators 0x1C to 0x1F, the space, the
  next-line control 0x85 and the no-break space 0xA0.
\<close>

definition nl :: char where
  "nl = CHR 0x0A"

definition is_space :: "char \<Rightarrow> bool" where
  "is_space c = (c \<in> set [CHR 0x09, CHR 0x0A, CHR 0x0B, CHR 0x0C, CHR 0x0D,
                            CHR 0x1C, CHR 0x1D, CHR 0x1E, CHR 0x1F, CHR 0x20,
                            CHR 0x85, CHR 0xA0])"

definition lstrip :: "string \<Rightarrow> string" where
  "lstrip s = dropWhile is_space s"

definition rstrip :: "string \<Rightarrow> string" where
  "rstrip s = rev (dropWhile is_space (rev s))"

definition strip :: "string \<Rightarrow> string" where
  "strip s = rstrip (lstrip s)"

text \<open>The operator \<open>sub in s\<close> on strings: \<open>sub\<close> occurs in \<open>s\<close> as a contiguous run.\<close>

fun py_in :: "string \<Rightarrow> string \<Rightarrow> bool" where
  "py_in sub [] = (sub = [])"
| "py_in sub (x # xs) = (prefix sub (x # xs) \<or> py_in sub xs)"

definition marker :: string where
  "marker = ''{text}''"

section \<open>The call \<open>template.format(text=captured_text)\<close>\<close>

text \<open>
  \<open>str.format\<close> reads the template from left to right. \<open>{{\<close> and \<open>}}\<close> give one
  literal brace, a single \<open>}\<close> raises ValueError, and a single \<open>{\<close> opens a
  replacement field \<open>{name!conversion:spec}\<close>. The call passes the one keyword argument
  \<open>text\<close> and no positional argument, so a field whose name does not start with
  \<open>text\<close> raises (KeyError for a name, IndexError for a number or the empty name).

  A field on \<open>text\<close> with no attribute, no index, no conversion or the conversion
  \<open>!s\<close>, and an empty format specification is the captured text. The value of any
  other field on \<open>text\<close> (\<open>{text.upper}\<close>, \<open>{text[0]}\<close>, \<open>{text!r}\<close>,
  \<open>{text:>10}\<close>) depends on the attributes of \<open>str\<close>, on \<open>repr\<close> and on the
  format specification language; it is taken as a parameter \<open>fv\<close>, which gives for such
  a field and the captured text the value, or \<open>None\<close> where Python raises.
\<close>

datatype fmt_result = Rendered string | Raises

record field =
  fname :: string
  conv :: "char option"
  spec :: string

text \<open>
  The field name runs up to the first \<open>}\<close>, \<open>:\<close> or \<open>!\<close> outside square brackets;
  a \<open>{\<close> outside brackets or the end of the template raises ValueError. The flag tells
  whether the scan is inside \<open>[...]\<close>. The result is the name, the character that ended
  it and the rest of the template.
\<close>

fun scan_name :: "bool \<Rightarrow> string \<Rightarrow> string \<Rightarrow> (string \<times> char \<times> string) option" where
  "scan_name inb acc [] = None"
| "scan_name True acc (c # cs) =
     (if c = CHR '']'' then scan_name False (acc @ [c]) cs
      else scan_name True (acc @ [c]) cs)"
| "scan_name False acc (c # cs) =
     (if c = CHR ''{'' then None
      else if c = CHR ''['' then scan_name True (acc @ [c]) cs
      else if c = CHR ''}'' \<or> c = CHR '':'' \<or> c = CHR ''!'' then Some (acc, c, cs)
      else scan_name False (acc @ [c]) cs)"

text \<open>
  The format specification runs up to the \<open>}\<close> that closes the field; braces nested
  in it are counted (\<open>n\<close> is the number of nested braces still open). The end of the
  template before that brace raises ValueError.
\<close>

fun scan_spec :: "nat \<Rightarrow> string \<Rightarrow> string \<Rightarrow> (string \<times> string) option" where
  "scan_spec n acc [] = None"
| "scan_spec n acc (c # cs) =
     (if c = CHR ''{'' then scan_spec (Suc n) (acc @ [c]) cs
      else if c = CHR ''}'' then
        (case n of 0 \<Rightarrow> Some (acc, cs) | Suc m \<Rightarrow> scan_spec m (acc @ [c]) cs)
      else scan_spec n (acc @ [c]) cs)"

text \<open>
  \<open>parse_field\<close> reads one replacement field from the text that follows its opening
  brace. \<open>None\<close> is a ValueError of the parser.
\<close>

definition parse_field :: "string \<Rightarrow> (field \<times> string) option" where
  "parse_field s =
     (case scan_name False [] s of
        None \<Rightarrow> None
      | Some (name, c, rest) \<Rightarrow>
          if c = CHR ''}'' then Some (\<lparr>fname = name, conv = None, spec = []\<rparr>, rest)
          else if c = CHR ''!'' then
            (case rest of
               [] \<Rightarrow> None
             | k # rest1 \<Rightarrow>
                 (case rest1 of
                    [] \<Rightarrow> None
                  | d # rest2 \<Rightarrow>
                      if d = CHR ''}'' then
                        Some (\<lparr>fname = name, conv = Some k, spec = []\<rparr>, rest2)
                      else if d \<noteq> CHR '':'' then None
                      else
                        (case scan_spec 0 [] rest2 of
                           None \<Rightarrow> None
                         | Some (sp, rest3) \<Rightarrow>
                             Some (\<lparr>fname = name, conv = Some k, spec = sp\<rparr>, rest3))))
          else
            (case scan_spec 0 [] rest of
               None \<Rightarrow> None
             | Some (sp, rest1) \<Rightarrow> Some (\<lparr>fname = name, conv = None, spec = sp\<rparr>, rest1)))"

text \<open>
  The value of one field for the captured text \<open>c\<close>. The first part of the name (up
  to the first \<open>.\<close> or \<open>[\<close>) is looked up among the arguments: only \<open>text\<close> is
  there. A conversion other than \<open>r\<close>, \<open>s\<close>, \<open>a\<close> raises ValueError; \<open>!s\<close> is
  \<open>str(text)\<close>, the text itself; an empty specification formats a string as itself.
\<close>

definition render_field :: "(field \<Rightarrow> string \<Rightarrow> string option) \<Rightarrow> string \<Rightarrow> field \<Rightarrow> fmt_result" where
  "render_field fv c f =
     (let first = takeWhile (\<lambda>x. x \<noteq> CHR ''.'' \<and> x \<noteq> CHR ''['') (fname f);
          accessors = dropWhile (\<lambda>x. x \<noteq> CHR ''.'' \<and> x \<noteq> CHR ''['') (fname f);
          other = (case fv f c of Some v \<Rightarrow> Rendered v | None \<Rightarrow> Raises)
      in if first \<noteq> ''text'' then Raises
         else if accessors \<noteq> [] then other
         else
           (case conv f of
              Some k \<Rightarrow>
                if k \<noteq> CHR ''r'' \<and> k \<noteq> CHR ''s'' \<and> k \<noteq> CHR ''a'' then Raises
                else if k \<noteq> CHR ''s'' then other
                else if spec f = [] then Rendered c else other
            | None \<Rightarrow> if spec f = [] then Rendered c else other))"

definition prepend :: "string \<Rightarrow> fmt_result \<Rightarrow> fmt_result" where
  "prepend s r = (case r of Rendered t \<Rightarrow> Rendered (s @ t) | Raises \<Rightarrow> Raises)"

lemma scan_name_length:
  "scan_name inb acc s = Some (name, c, rest) \<Longrightarrow> length rest < length s"
  by (induction inb acc s rule: scan_name.induct) (auto split: if_splits)

lemma scan_spec_length:
  "scan_spec n acc s = Some (sp, rest) \<Longrightarrow> length rest < length s"
  by (induction n acc s rule: scan_spec.induct) (auto split: if_splits nat.splits)

lemma parse_field_length:
  "parse_field s = Some (f, rest) \<Longrightarrow> length rest < length s"
  unfolding parse_field_def
  by (auto split: option.splits if_splits list.splits prod.splits
           dest!: scan_name_length scan_spec_length)

function py_format :: "(field \<Rightarrow> string \<Rightarrow> string option) \<Rightarrow> string \<Rightarrow> string \<Rightarrow> fmt_result" where
  "py_format fv [] c = Rendered []"
| "py_format fv (x # xs) c =
     (if x = CHR ''}'' then
        (case xs of
           [] \<Rightarrow> Raises
         | y # ys \<Rightarrow> if y = CHR ''}'' then prepend [x] (py_format fv ys c) else Raises)
      else if x = CHR ''{'' then
        (case xs of
           [] \<Rightarrow> Raises
         | y # ys \<Rightarrow>
             if y = CHR ''{'' then prepend [x] (py_format fv ys c)
             else
               (case parse_field xs of
                  None \<Rightarrow> Raises
                | Some (f, rest) \<Rightarrow>
                    (case render_field fv c f of
                       Rendered v \<Rightarrow> prepend v (py_format fv rest c)
                     | Raises \<Rightarrow> Raises)))
      else prepend [x] (py_format fv xs c))"
  by pat_completeness auto
termination
  by (relation "measure (\<lambda>(fv, t, c). length t)") (auto dest: parse_field_length)

section \<open>The resolver \<open>_combine_prompt\<close>\<close>

definition strict_suffix :: string where
  "strict_suffix = [nl, nl] @
     ''IMPORTANT: Output ONLY the rewritten text. Do not add any explanations, preambles, notes, or surrounding text. Just the result.''"

text \<open>\<open>_combine_prompt(captured_text, instruction_or_template)\<close>.\<close>

definition combine_prompt :: "(field \<Rightarrow> string \<Rightarrow> string option) \<Rightarrow> string \<Rightarrow> string \<Rightarrow> string" where
  "combine_prompt fv captured_text template =
     (if py_in marker template then
        (case py_format fv template captured_text of
           Rendered s \<Rightarrow> s @ strict_suffix
         | Raises \<Rightarrow> template @ [nl, nl] @ captured_text @ strict_suffix)
      else strip (strip template @ [nl, nl] @ captured_text) @ strict_suffix)"

section \<open>JSON values and the two stores\<close>

text \<open>
  What \<open>json.load\<close> returns: \<open>None\<close>, a bool, a number (the integers stand for the
  numbers), a string, a list, or a dict. A dict is the list of its items in insertion
  order; \<open>map_of\<close> looks a key up.
\<close>

datatype json = JNull | JBool bool | JNum int | JStr string | JArr "json list"
  | JObj "(string \<times> json) list"

text \<open>
  A file on disk is missing, or holds text that \<open>json.load\<close> rejects, or holds text
  that \<open>json.load\<close> reads as a value; \<open>json.dump\<close> writes text that reads back as the
  value dumped.
\<close>

datatype stored_file = Missing | Corrupt | Holds json

datatype error =
    ApiKeyMissing    \<comment> \<open>RuntimeError: OpenRouter API key missing\<close>
  | NoChoices        \<comment> \<open>RuntimeError: No choices returned from OpenRouter\<close>
  | EmptyContent     \<comment> \<open>RuntimeError: Empty response content from OpenRouter\<close>
  | AttributeError | TypeError | KeyError
  | RequestException \<comment> \<open>\<open>requests.post\<close> raised: no response\<close>
  | HTTPError nat    \<comment> \<open>\<open>raise_for_status\<close> on a 4xx or 5xx status\<close>
  | JSONDecodeError  \<comment> \<open>\<open>response.json()\<close> on a body that is not JSON\<close>

record request =
  url :: string
  authorization :: string
  model :: string
  content :: string
  timeout :: nat

datatype reply = NoReply | Reply nat "json option"

record world =
  config_file :: stored_file
  prompts_file :: stored_file
  sent :: "request list"

definition placeholder :: string where
  "placeholder = ''YOUR_OPENROUTER_API_KEY_HERE''"

definition default_config :: json where
  "default_config = JObj [(''api_key'', JStr placeholder)]"

definition save_config :: "json \<Rightarrow> world \<Rightarrow> world" where
  "save_config data w = w\<lparr>config_file := Holds data\<rparr>"

definition load_config :: "world \<Rightarrow> json \<times> world" where
  "load_config w =
     (case config_file w of
        Missing \<Rightarrow> (default_config, save_config default_config w)
      | Corrupt \<Rightarrow> (default_config, save_config default_config w)
      | Holds v \<Rightarrow> (v, w))"

definition default_prompts :: json where
  "default_prompts = JArr
     [JObj [(''name'', JStr ''Professional Tone''),
            (''prompt'', JStr (''Rewrite the following text in a clear, formal, and professional business tone. Output ONLY the rewritten text with no preamble, explanation, or notes:'' @ [nl, nl] @ ''{text}''))],
      JObj [(''name'', JStr ''Fix Grammar''),
            (''prompt'', JStr (''Correct any spelling and grammar mistakes in the following text. Output ONLY the corrected text with no explanations or notes:'' @ [nl, nl] @ ''{text}''))]]"

definition save_prompts :: "json \<Rightarrow> world \<Rightarrow> world" where
  "save_prompts data w = w\<lparr>prompts_file := Holds data\<rparr>"

definition isinstance_list :: "json \<Rightarrow> bool" where
  "isinstance_list v = (case v of JArr xs \<Rightarrow> True | _ \<Rightarrow> False)"

definition load_prompts :: "world \<Rightarrow> json \<times> world" where
  "load_prompts w =
     (case prompts_file w of
        Missing \<Rightarrow> (default_prompts, save_prompts default_prompts w)
      | Corrupt \<Rightarrow> (default_prompts, save_prompts default_prompts w)
      | Holds data \<Rightarrow> if isinstance_list data then (data, w) else (default_prompts, w))"

section \<open>The API client \<open>call_openrouter_api\<close>\<close>

text \<open>\<open>not v\<close> is \<open>\<not> truthy v\<close>.\<close>

definition truthy :: "json \<Rightarrow> bool" where
  "truthy v = (case v of JNull \<Rightarrow> False | JBool b \<Rightarrow> b | JNum n \<Rightarrow> n \<noteq> 0
               | JStr s \<Rightarrow> s \<noteq> [] | JArr xs \<Rightarrow> xs \<noteq> [] | JObj kv \<Rightarrow> kv \<noteq> [])"

text \<open>\<open>v.get(k, d)\<close>: only a dict has the method.\<close>

definition py_get :: "json \<Rightarrow> string \<Rightarrow> json \<Rightarrow> error + json" where
  "py_get v k d =
     (case v of
        JObj kv \<Rightarrow> (case map_of kv k of Some x \<Rightarrow> Inr x | None \<Rightarrow> Inr d)
      | _ \<Rightarrow> Inl AttributeError)"

text \<open>
  \<open>v[0]\<close> for a truthy \<open>v\<close>: the first element of a list, the first character of a
  string; a dict has no key \<open>0\<close> (its keys are strings), and a number or a bool cannot
  be subscripted.
\<close>

definition py_first :: "json \<Rightarrow> error + json" where
  "py_first v =
     (case v of
        JArr xs \<Rightarrow> (case xs of [] \<Rightarrow> Inl TypeError | x # _ \<Rightarrow> Inr x)
      | JStr s \<Rightarrow> (case s of [] \<Rightarrow> Inl TypeError | x # _ \<Rightarrow> Inr (JStr [x]))
      | JObj kv \<Rightarrow> Inl KeyError
      | _ \<Rightarrow> Inl TypeError)"

text \<open>\<open>s.strip()\<close> on a value: only a string has the method.\<close>

definition py_strip :: "json \<Rightarrow> error + string" where
  "py_strip v = (case v of JStr s \<Rightarrow> Inr (strip s) | _ \<Rightarrow> Inl AttributeError)"

text \<open>The lines of \<open>call_openrouter_api\<close> after \<open>data = response.json()\<close>.\<close>

definition first_choice_content :: "json \<Rightarrow> error + json" where
  "first_choice_content data =
     (case py_get data ''choices'' (JArr []) of
        Inl e \<Rightarrow> Inl e
      | Inr choices \<Rightarrow>
          if \<not> truthy choices then Inl NoChoices
          else
            (case py_first choices of
               Inl e \<Rightarrow> Inl e
             | Inr choice \<Rightarrow>
                 (case py_get choice ''message'' (JObj []) of
                    Inl e \<Rightarrow> Inl e
                  | Inr message \<Rightarrow>
                      (case py_get message ''content'' (JStr []) of
                         Inl e \<Rightarrow> Inl e
                       | Inr c \<Rightarrow> if \<not> truthy c then Inl EmptyContent else Inr c))))"

definition build_request :: "string \<Rightarrow> string \<Rightarrow> request" where
  "build_request api_key final_prompt =
     \<lparr>url = ''https://openrouter.ai/api/v1/chat/completions'',
      authorization = ''Bearer '' @ api_key,
      model = ''google/gemini-2.5-flash-preview-09-2025'',
      content = final_prompt,
      timeout = 60\<rparr>"

text \<open>
  \<open>remote\<close> is the network and the server: what \<open>requests.post\<close> gets for a request.
  Every request handed to \<open>requests.post\<close> is recorded in \<open>sent\<close>.
\<close>

definition call_openrouter_api ::
  "(field \<Rightarrow> string \<Rightarrow> string option) \<Rightarrow> (request \<Rightarrow> reply) \<Rightarrow> world \<Rightarrow> string \<Rightarrow> string
     \<Rightarrow> (error + json) \<times> world" where
  "call_openrouter_api fv remote w captured_text instruction_or_template =
     (let (cfg, w1) = load_config w in
      case py_get cfg ''api_key'' (JStr []) of
        Inl e \<Rightarrow> (Inl e, w1)
      | Inr k \<Rightarrow>
          (case py_strip k of
             Inl e \<Rightarrow> (Inl e, w1)
           | Inr api_key \<Rightarrow>
               if api_key = [] \<or> api_key = placeholder then (Inl ApiKeyMissing, w1)
               else
                 (let final_prompt = combine_prompt fv captured_text instruction_or_template;
                      req = build_request api_key final_prompt;
                      w2 = w1\<lparr>sent := sent w1 @ [req]\<rparr>
                  in case remote req of
                       NoReply \<Rightarrow> (Inl RequestException, w2)
                     | Reply status body \<Rightarrow>
                         if 400 \<le> status \<and> status < 600 then (Inl (HTTPError status), w2)
                         else
                           (case body of
                              None \<Rightarrow> (Inl JSONDecodeError, w2)
                            | Some data \<Rightarrow> (first_choice_content data, w2)))))"

section \<open>The prompt picker \<open>PromptWindow\<close>\<close>

text \<open>
  \<open>s.lower()\<close> on the code points below 256: the capital letters A to Z and the
  capital letters 0xC0 to 0xDE (the multiplication sign 0xD7 apart) move up by 32.
\<close>

definition lower_char :: "char \<Rightarrow> char" where
  "lower_char c =
     (let n = (of_char c :: nat)
      in if (65 \<le> n \<and> n \<le> 90) \<or> (192 \<le> n \<and> n \<le> 222 \<and> n \<noteq> 215) then char_of (n + 32)
         else c)"

definition lower :: "string \<Rightarrow> string" where
  "lower s = map lower_char s"

text \<open>
  The fields of a \<open>PromptWindow\<close> that the picker and the paste use. A dict is the list
  of its items in insertion order: storing under a key that is there keeps the key's
  place (\<open>AList.update\<close>), a new key goes to the end. \<open>sorted\<close> is stable, as
  \<open>sort_key\<close> is, and strings compare code point by code point.
\<close>

record prompt_window =
  name_to_prompt :: "(string \<times> string) list"
  sorted_prompt_names :: "string list"
  selected_prompt_index :: int
  prompt_select_mode :: bool
  paste_executed :: bool

text \<open>
  \<open>PromptWindow.__init__\<close> for the loaded prompts, each given by its \<open>name\<close> and its
  \<open>prompt\<close>.
\<close>

definition new_prompt_window :: "(string \<times> string) list \<Rightarrow> prompt_window" where
  "new_prompt_window prompts =
     (let d = fold (\<lambda>p d. AList.update (fst p) (snd p) d) prompts []
      in \<lparr>name_to_prompt = d,
          sorted_prompt_names = sort_key lower (map fst d),
          selected_prompt_index = 0,
          prompt_select_mode = False,
          paste_executed = False\<rparr>)"

definition enter_prompt_select :: "prompt_window \<Rightarrow> prompt_window" where
  "enter_prompt_select w = w\<lparr>prompt_select_mode := True, selected_prompt_index := 0\<rparr>"

definition select_prompt :: "int \<Rightarrow> prompt_window \<Rightarrow> prompt_window" where
  "select_prompt index w = w\<lparr>selected_prompt_index := index\<rparr>"

text \<open>
  The buttons are built from \<open>sorted_prompt_names\<close>, one for each name in that order,
  and \<open>_highlight_prompt\<close> colours the button whose position is the selected index:
  the name on the highlighted button.
\<close>

definition highlighted_name :: "prompt_window \<Rightarrow> string option" where
  "highlighted_name w =
     (let i = selected_prompt_index w
      in if 0 \<le> i \<and> i < int (length (sorted_prompt_names w))
         then Some (sorted_prompt_names w ! nat i) else None)"

text \<open>
  \<open>_submit\<close> up to the start of the worker: the name chosen in the picker, if any.
\<close>

definition selected_name :: "prompt_window \<Rightarrow> string option" where
  "selected_name w =
     (let prompt_names = map fst (name_to_prompt w); i = selected_prompt_index w
      in if 0 \<le> i \<and> i < int (length prompt_names) then Some (prompt_names ! nat i) else None)"

text \<open>
  \<open>_submit\<close>: the instruction handed to \<open>call_openrouter_api\<close>, or \<open>None\<close> where
  \<open>_submit\<close> returns without a request. \<open>entry\<close> is the text of the entry field.
\<close>

definition submit :: "prompt_window \<Rightarrow> string \<Rightarrow> string option" where
  "submit w entry =
     (let instruction =
        (if prompt_select_mode w then
           (case selected_name w of
              Some n \<Rightarrow> Some (case map_of (name_to_prompt w) n of Some t \<Rightarrow> t | None \<Rightarrow> [])
            | None \<Rightarrow> None)
         else Some (strip entry))
      in case instruction of
           None \<Rightarrow> None
         | Some i \<Rightarrow> if i = [] then None else Some i)"

section \<open>The prompt editor\<close>

text \<open>
  \<open>save_and_close\<close>: the template that is stored for the text \<open>raw\<close> of the editor.
\<close>

definition save_and_close_prompt :: "string \<Rightarrow> string" where
  "save_and_close_prompt raw =
     (let prompt_val = strip raw
      in if \<not> py_in marker prompt_val then strip (rstrip prompt_val @ [nl, nl] @ marker)
         else prompt_val)"

section \<open>The paste \<open>_auto_paste\<close>\<close>







section \<open>Notions of the specification\<close>

text \<open>
  The credential counts as not configured when the settings file is missing or cannot be
  parsed, when the settings object has no \<open>api_key\<close>, when the key is blank after
  trimming, and when it is the placeholder.
\<close>

definition credential_unusable :: "stored_file \<Rightarrow> bool" where
  "credential_unusable f =
     (case f of
        Missing \<Rightarrow> True
      | Corrupt \<Rightarrow> True
      | Holds v \<Rightarrow>
          (case v of
             JObj kv \<Rightarrow>
               (case map_of kv ''api_key'' of
                  None \<Rightarrow> True
                | Some k \<Rightarrow> (case k of JStr s \<Rightarrow> strip s = [] \<or> s = placeholder | _ \<Rightarrow> False))
           | _ \<Rightarrow> False))"

text \<open>
  The picker opened on the loaded prompts (\<open>_enter_prompt_select\<close>) with the item at
  index \<open>i\<close> highlighted (\<open>_select_prompt\<close>).
\<close>

definition open_picker :: "(string \<times> string) list \<Rightarrow> int \<Rightarrow> prompt_window" where
  "open_picker prompts i = select_prompt i (enter_prompt_select (new_prompt_window prompts))"


text \<open>
  For the examples, which have no field that \<open>fv\<close> is asked about: the \<open>fv\<close> under
  which every such field raises.
\<close>

definition fields_raise :: "field \<Rightarrow> string \<Rightarrow> string option" where
  "fields_raise f c = None"

text \<open>A server that answers every request with status 200 and the JSON value \<open>body\<close>.\<close>

definition reply_ok :: "json \<Rightarrow> request \<Rightarrow> reply" where
  "reply_ok body r = Reply 200 (Some body)"

text \<open>
  The values that count as no content: \<open>None\<close>, \<open>False\<close>, zero, and the empty string,
  list and dict.
\<close>

definition empty_value :: "json \<Rightarrow> bool" where
  "empty_value v = (v = JNull \<or> v = JBool False \<or> v = JNum 0 \<or> v = JStr [] \<or> v = JArr []
                    \<or> v = JObj [])"

text \<open>
  The names of a stored list in the order in which each is first stored, every name once;
  and adding a key to the keys of a dict.
\<close>

definition first_stored :: "string list \<Rightarrow> string list" where
  "first_stored names = rev (remdups (rev names))"

definition add_key :: "'a \<Rightarrow> 'a list \<Rightarrow> 'a list" where
  "add_key k ks = (if k \<in> set ks then ks else ks @ [k])"

text \<open>
  A piece of template text without braces, and a template made of such pieces with
  \<open>sep\<close> between them (\<open>sep.join(pieces)\<close>).
\<close>

definition brace_free :: "string \<Rightarrow> bool" where
  "brace_free s = (CHR ''{'' \<notin> set s \<and> CHR ''}'' \<notin> set s)"

fun join :: "string \<Rightarrow> string list \<Rightarrow> string" where
  "join sep [] = []"
| "join sep [s] = s"
| "join sep (s # t # ss) = s @ sep @ join sep (t # ss)"

text \<open>
  What stands in the payload \<open>out\<close> between the text \<open>before\<close> and the text \<open>after\<close>
  followed by the directive: the segment inserted at the marker.
\<close>

definition inserted_segment :: "string \<Rightarrow> string \<Rightarrow> string \<Rightarrow> string" where
  "inserted_segment before after out =
     take (length out - length before - length after - length strict_suffix)
       (drop (length before) out)"

section \<open>Facts about trimming\<close>

lemma strip_Nil: "strip [] = []"
  by (simp add: strip_def lstrip_def rstrip_def)

lemma strip_placeholder: "strip placeholder = placeholder"
  by (simp add: strip_def lstrip_def rstrip_def placeholder_def is_space_def)

lemma rstrip_append:
  "rstrip (a @ b) = (if \<forall>x\<in>set b. is_space x then rstrip a else a @ rstrip b)"
  by (simp add: rstrip_def dropWhile_append)

lemma rstrip_keeps: "s \<noteq> [] \<Longrightarrow> \<not> is_space (last s) \<Longrightarrow> rstrip s = s"
  by (cases s rule: rev_cases) (simp_all add: rstrip_def)

lemma lstrip_keeps: "s \<noteq> [] \<Longrightarrow> \<not> is_space (hd s) \<Longrightarrow> lstrip (s @ t) = s @ t"
  by (cases s) (simp_all add: lstrip_def)

lemma rstrip_decomp: "\<exists>r. u = rstrip u @ r \<and> (\<forall>x\<in>set r. is_space x)"
proof -
  have "rev u = takeWhile is_space (rev u) @ dropWhile is_space (rev u)" by simp
  then have "u = rev (dropWhile is_space (rev u)) @ rev (takeWhile is_space (rev u))"
    by (metis rev_append rev_rev_ident)
  moreover have "\<forall>x\<in>set (rev (takeWhile is_space (rev u))). is_space x"
    by (auto dest: set_takeWhileD)
  ultimately show ?thesis unfolding rstrip_def by blast
qed

lemma rstrip_last: "rstrip u \<noteq> [] \<Longrightarrow> \<not> is_space (last (rstrip u))"
  unfolding rstrip_def by (metis hd_dropWhile hd_rev rev_is_Nil_conv rev_rev_ident) 

lemma lstrip_hd: "lstrip u \<noteq> [] \<Longrightarrow> \<not> is_space (hd (lstrip u))"
  unfolding lstrip_def by (simp add: hd_dropWhile)

lemma strip_ends:
  assumes "strip t \<noteq> []"
  shows "\<not> is_space (hd (strip t))" and "\<not> is_space (last (strip t))"
proof -
  show "\<not> is_space (last (strip t))" using assms rstrip_last unfolding strip_def by blast
  obtain r where r: "lstrip t = rstrip (lstrip t) @ r" using rstrip_decomp by blast
  then have "hd (lstrip t) = hd (strip t)" using assms unfolding strip_def
    by (metis hd_append2)
  moreover have "lstrip t \<noteq> []" using assms r unfolding strip_def by auto
  ultimately show "\<not> is_space (hd (strip t))" using lstrip_hd by metis
qed

lemma strip_decomp:
  "\<exists>l r. c = l @ strip c @ r \<and> (\<forall>x\<in>set l. is_space x) \<and> (\<forall>x\<in>set r. is_space x)"
proof -
  obtain r where r: "lstrip c = rstrip (lstrip c) @ r" "\<forall>x\<in>set r. is_space x"
    using rstrip_decomp by blast
  have "c = takeWhile is_space c @ lstrip c" by (simp add: lstrip_def)
  with r(1) have "c = takeWhile is_space c @ strip c @ r" by (simp add: strip_def)
  moreover have "\<forall>x\<in>set (takeWhile is_space c). is_space x" by (auto dest: set_takeWhileD)
  ultimately show ?thesis using r(2) by blast
qed

lemma rstrip_all_space: "\<forall>x\<in>set s. is_space x \<Longrightarrow> rstrip s = []"
  by (simp add: rstrip_def)

lemma strip_after_trimmed:
  assumes "strip t \<noteq> []"
  shows "strip (strip t @ x) = strip t @ rstrip x"
proof -
  have "lstrip (strip t @ x) = strip t @ x"
    using assms strip_ends(1) by (simp add: lstrip_keeps)
  moreover have "rstrip (strip t) = strip t"
    using assms strip_ends(2) by (simp add: rstrip_keeps)
  ultimately show ?thesis
    by (simp add: strip_def [of "strip t @ x"] rstrip_append rstrip_all_space)
qed

lemma strip_append_ends_with:
  "\<exists>p. strip (a @ c) = p @ strip c"
proof (cases "strip c = []")
  case True
  then show ?thesis by simp
next
  case False
  obtain l r where d: "c = l @ strip c @ r" "\<forall>x\<in>set l. is_space x" "\<forall>x\<in>set r. is_space x"
    using strip_decomp by blast
  have ns: "\<not> is_space (hd (strip c))" "\<not> is_space (last (strip c))"
    using False strip_ends by blast+
  have "\<exists>p. lstrip (a @ c) = p @ strip c @ r"
  proof (cases "\<forall>x\<in>set (a @ l). is_space x")
    case True
    have "lstrip (a @ c) = lstrip ((a @ l) @ strip c @ r)" using d(1) by simp
    also have "\<dots> = lstrip (strip c @ r)" using True unfolding lstrip_def
      by (simp only: dropWhile_append) simp
    also have "\<dots> = strip c @ r" using False ns(1) by (simp add: lstrip_keeps)
    finally show ?thesis by simp
  next
    case nsp: False
    have "lstrip (a @ c) = lstrip ((a @ l) @ strip c @ r)" using d(1) by simp
    also have "\<dots> = dropWhile is_space (a @ l) @ strip c @ r" using nsp unfolding lstrip_def
      by (simp only: dropWhile_append) simp
    finally show ?thesis by blast
  qed
  then obtain p where p: "lstrip (a @ c) = p @ strip c @ r" by blast
  have "rstrip ((p @ strip c) @ r) = rstrip (p @ strip c)"
    using d(3) by (simp only: rstrip_append) simp
  also have "\<dots> = p @ strip c" using False ns(2) by (intro rstrip_keeps) simp_all
  finally have "strip (a @ c) = p @ strip c" using p by (simp add: strip_def)
  then show ?thesis by blast
qed

lemma strip_marker: "strip marker = marker"
  by (simp add: strip_def lstrip_def rstrip_def marker_def is_space_def)

section \<open>Facts about \<open>py_in\<close> and \<open>py_format\<close>\<close>

lemma py_in_sublist: "py_in sub s = sublist sub s"
  by (induction s) (auto simp: sublist_Cons_right)

lemma py_in_middle: "py_in x (a @ x @ b)"
  by (simp add: py_in_sublist)

lemma prepend_Nil: "prepend [] r = r"
  by (cases r) (simp_all add: prepend_def)

lemma prepend_prepend: "prepend a (prepend b r) = prepend (a @ b) r"
  by (cases r) (simp_all add: prepend_def)

lemma prepend_eq_Rendered: "prepend s r = Rendered t \<Longrightarrow> \<exists>u. r = Rendered u \<and> t = s @ u"
  by (cases r) (simp_all add: prepend_def)

lemma scan_name_append:
  "scan_name inb acc s = Some (n, ch, rest) \<Longrightarrow> scan_name inb acc (s @ b) = Some (n, ch, rest @ b)"
  by (induction inb acc s rule: scan_name.induct) (auto split: if_splits)

lemma scan_spec_append:
  "scan_spec k acc s = Some (sp, rest) \<Longrightarrow> scan_spec k acc (s @ b) = Some (sp, rest @ b)"
  by (induction k acc s rule: scan_spec.induct) (auto split: if_splits nat.splits)

lemma parse_field_append:
  assumes "parse_field s = Some (f, rest)"
  shows "parse_field (s @ b) = Some (f, rest @ b)"
proof -
  from assms obtain n ch r where sn: "scan_name False [] s = Some (n, ch, r)"
    unfolding parse_field_def by (auto split: option.splits)
  have sn': "scan_name False [] (s @ b) = Some (n, ch, r @ b)"
    by (rule scan_name_append [OF sn])
  show ?thesis
  proof (cases "ch = CHR ''}''")
    case True
    with assms sn sn' show ?thesis by (simp add: parse_field_def)
  next
    case nc: False
    show ?thesis
    proof (cases "ch = CHR ''!''")
      case False
      with nc assms sn obtain sp where sp: "scan_spec 0 [] r = Some (sp, rest)"
        and f: "f = \<lparr>fname = n, conv = None, spec = sp\<rparr>"
        by (auto simp: parse_field_def split: option.splits)
      from scan_spec_append [OF sp] have "scan_spec 0 [] (r @ b) = Some (sp, rest @ b)" .
      with False nc sn' f show ?thesis by (simp add: parse_field_def)
    next
      case True
      with assms sn obtain k d r2 where r: "r = k # d # r2"
        by (auto simp: parse_field_def split: list.splits)
      show ?thesis
      proof (cases "d = CHR ''}''")
        case True
        with \<open>ch = CHR ''!''\<close> assms sn sn' r show ?thesis by (simp add: parse_field_def)
      next
        case False
        with \<open>ch = CHR ''!''\<close> assms sn r obtain sp where d: "d = CHR '':''"
          and sp: "scan_spec 0 [] r2 = Some (sp, rest)"
          and f: "f = \<lparr>fname = n, conv = Some k, spec = sp\<rparr>"
          by (auto simp: parse_field_def split: option.splits if_splits)
        from scan_spec_append [OF sp] have "scan_spec 0 [] (r2 @ b) = Some (sp, rest @ b)" .
        with \<open>ch = CHR ''!''\<close> sn' r d f show ?thesis by (simp add: parse_field_def)
      qed
    qed
  qed
qed

text \<open>
  A template that renders is rendered piece by piece: text put after it is rendered on its
  own and appended.
\<close>

lemma py_format_append:
  "py_format fv a c = Rendered a' \<Longrightarrow> py_format fv (a @ b) c = prepend a' (py_format fv b c)"
proof (induction fv a c arbitrary: a' rule: py_format.induct)
  case (1 fv c)
  then show ?case by (simp add: prepend_Nil)
next
  case (2 fv x xs c)
  show ?case
  proof (cases "x = CHR ''}''")
    case True
    with "2.prems" obtain ys where xs: "xs = CHR ''}'' # ys"
      by (auto split: list.splits if_splits)
    with True "2.prems" obtain u where u: "py_format fv ys c = Rendered u" and a': "a' = [x] @ u"
      by (auto dest: prepend_eq_Rendered)
    from "2.IH"(1) [OF True xs _ u] have "py_format fv (ys @ b) c = prepend u (py_format fv b c)" by simp
    with True xs a' show ?thesis by (simp add: prepend_prepend)
  next
    case nclose: False
    show ?thesis
    proof (cases "x = CHR ''{''")
      case False
      with nclose "2.prems" obtain u where u: "py_format fv xs c = Rendered u" and a': "a' = [x] @ u"
        by (auto dest: prepend_eq_Rendered)
      from "2.IH"(4) [OF nclose False u] have "py_format fv (xs @ b) c = prepend u (py_format fv b c)" .
      with nclose False a' show ?thesis by (simp add: prepend_prepend)
    next
      case True
      with "2.prems" obtain y ys where xs: "xs = y # ys"
        by (auto split: list.splits)
      show ?thesis
      proof (cases "y = CHR ''{''")
        case yo: True
        with True xs "2.prems" obtain u where u: "py_format fv ys c = Rendered u" and a': "a' = [x] @ u"
          by (auto dest: prepend_eq_Rendered)
        from "2.IH"(2) [OF nclose True xs yo u]
        have "py_format fv (ys @ b) c = prepend u (py_format fv b c)" .
        with True xs yo a' show ?thesis by (simp add: prepend_prepend)
      next
        case yn: False
        with True xs "2.prems" obtain f rest where pf: "parse_field xs = Some (f, rest)"
          by (auto split: option.splits)
        with True xs yn "2.prems" obtain v where rf: "render_field fv c f = Rendered v"
          by (auto split: fmt_result.splits)
        with True xs yn pf "2.prems" have "prepend v (py_format fv rest c) = Rendered a'"
          by simp
        then obtain u where u: "py_format fv rest c = Rendered u" and a': "a' = v @ u"
          by (auto dest: prepend_eq_Rendered)
        from "2.IH"(3) [OF nclose True xs yn _ _ rf u] pf
        have ih: "py_format fv (rest @ b) c = prepend u (py_format fv b c)" by simp
        from parse_field_append [OF pf] xs have "parse_field (y # ys @ b) = Some (f, rest @ b)"
          by simp
        with True xs yn rf ih a' show ?thesis by (simp add: prepend_prepend)
      qed
    qed
  qed
qed

lemma py_format_brace_free: "brace_free s \<Longrightarrow> py_format fv s c = Rendered s"
  by (induction s) (auto simp: brace_free_def prepend_def)

lemma py_format_marker: "py_format fv marker c = Rendered c"
  by (simp add: marker_def parse_field_def render_field_def prepend_def)

lemma py_format_around_marker:
  assumes "py_format fv pre c = Rendered pre'" and "py_format fv post c = Rendered post'"
  shows "py_format fv (pre @ marker @ post) c = Rendered (pre' @ c @ post')"
proof -
  have "py_format fv (marker @ post) c = prepend c (py_format fv post c)"
    by (rule py_format_append [OF py_format_marker])
  with assms(2) have "py_format fv (marker @ post) c = Rendered (c @ post')"
    by (simp add: prepend_def)
  with py_format_append [OF assms(1), of "marker @ post"] show ?thesis
    by (simp add: prepend_def)
qed

lemma py_format_join_Cons:
  "\<forall>x\<in>set (s # ss). brace_free x \<Longrightarrow> py_format fv (join marker (s # ss)) c = Rendered (join c (s # ss))"
proof (induction ss arbitrary: s)
  case Nil
  then show ?case by (simp add: py_format_brace_free)
next
  case (Cons t ss)
  have "py_format fv (join marker (t # ss)) c = Rendered (join c (t # ss))"
    using Cons by simp
  moreover have "py_format fv s c = Rendered s" using Cons.prems by (simp add: py_format_brace_free)
  ultimately show ?case using py_format_around_marker [of fv s c s "join marker (t # ss)"]
    by simp
qed

lemma py_in_join: "2 \<le> length segs \<Longrightarrow> py_in marker (join marker segs)"
proof -
  assume "2 \<le> length segs"
  then obtain s t ss where "segs = s # t # ss"
    by (metis One_nat_def Suc_1 Suc_le_length_iff)
  then show ?thesis by (simp add: py_in_middle)
qed

section \<open>The resolver\<close>

text \<open>
  The resolver by cases. In a template made of brace-free pieces with the marker between
  them, \<open>str.format\<close> puts the captured text in the place of every marker, and the
  payload is the result followed by the directive. When the template contains the marker
  and \<open>str.format\<close> raises, the payload is the template, a blank line, the captured
  text and the directive. Every payload ends with the directive.
\<close>

lemma combine_prompt_algorithm:
  "((\<forall>s\<in>set segs. brace_free s) \<and> 2 \<le> length segs \<longrightarrow>
      combine_prompt fv c (join marker segs) = join c segs @ strict_suffix)
   \<and> (py_in marker t \<and> py_format fv t c = Raises \<longrightarrow>
        combine_prompt fv c t = t @ [nl, nl] @ c @ strict_suffix)
   \<and> suffix strict_suffix (combine_prompt fv c t)"
proof -
  have 1: "combine_prompt fv c (join marker segs) = join c segs @ strict_suffix"
    if "\<forall>s\<in>set segs. brace_free s" "2 \<le> length segs"
  proof -
    from that(2) obtain s u ss where segs: "segs = s # u # ss"
      by (metis One_nat_def Suc_1 Suc_le_length_iff)
    have "py_format fv (join marker segs) c = Rendered (join c segs)"
      using that(1) segs py_format_join_Cons [of s "u # ss" fv c] by simp
    then show ?thesis
      using py_in_join [OF that(2)] by (simp add: combine_prompt_def)
  qed
  have 2: "combine_prompt fv c t = t @ [nl, nl] @ c @ strict_suffix"
    if "py_in marker t" "py_format fv t c = Raises"
    using that by (simp add: combine_prompt_def)
  have 3: "suffix strict_suffix (combine_prompt fv c t)"
    by (auto simp: combine_prompt_def suffix_def split: fmt_result.splits)
  show ?thesis using 1 2 3 by blast
qed

lemma combine_prompt_algorithm_example:
  "brace_free ''Fix: '' \<and> brace_free [] \<and> 2 \<le> length [''Fix: '', []]
   \<and> combine_prompt fields_raise ''helo wrld'' ''Fix: {text}'' = ''Fix: helo wrld'' @ strict_suffix
   \<and> py_in marker ''{text} {'' \<and> py_format fields_raise ''{text} {'' ''helo wrld'' = Raises
   \<and> combine_prompt fields_raise ''helo wrld'' ''{text} {''
       = ''{text} {'' @ [nl, nl] @ ''helo wrld'' @ strict_suffix
   \<and> suffix strict_suffix (combine_prompt fields_raise ''helo wrld'' ''{text} {'')"
proof -
  have 1: "brace_free ''Fix: '' \<and> brace_free []" by (simp add: brace_free_def)
  have 2: "\<forall>s\<in>set [''Fix: '', []]. brace_free s" using 1 by simp
  have 3: "2 \<le> length [''Fix: '', []]" by simp
  have 4: "join marker [''Fix: '', []] = ''Fix: {text}''" by (simp add: marker_def)
  have 5: "join ''helo wrld'' [''Fix: '', []] = ''Fix: helo wrld''" by simp
  have 6: "py_in marker ''{text} {''" by (simp add: marker_def)
  have 7: "py_format fields_raise ''{text} {'' ''helo wrld'' = Raises"
    by (simp add: parse_field_def render_field_def prepend_def)
  note t = combine_prompt_algorithm [of "[''Fix: '', []]" fields_raise "''helo wrld''" "''{text} {''"]
  from t 2 3 have a: "combine_prompt fields_raise ''helo wrld'' (join marker [''Fix: '', []])
                     = join ''helo wrld'' [''Fix: '', []] @ strict_suffix"
    by blast
  from t 6 7 have b: "combine_prompt fields_raise ''helo wrld'' ''{text} {''
                     = ''{text} {'' @ [nl, nl] @ ''helo wrld'' @ strict_suffix"
    by blast
  from t have c: "suffix strict_suffix (combine_prompt fields_raise ''helo wrld'' ''{text} {'')"
    by blast
  from a have a': "combine_prompt fields_raise ''helo wrld'' ''Fix: {text}''
                     = ''Fix: helo wrld'' @ strict_suffix"
    by (simp only: 4 5)
  show ?thesis using 1 3 a' 6 7 b c by blast
qed

text \<open>
  C1. The template \<open>Rewrite {{text}}\<close> contains the marker as a substring, so the
  resolver takes the branch of \<open>str.format\<close>. Doubled braces are the escape of
  \<open>str.format\<close> for a literal brace: it does not raise, and the payload is
  \<open>Rewrite {text}\<close> and the directive. The captured text \<open>hello\<close> is not
  substituted at the marker and is nowhere in the payload.
\<close>

theorem combine_prompt_escaped_marker:
  "py_in marker ''Rewrite {{text}}''
   \<and> py_format fields_raise ''Rewrite {{text}}'' ''hello'' = Rendered ''Rewrite {text}''
   \<and> combine_prompt fields_raise ''hello'' ''Rewrite {{text}}'' = ''Rewrite {text}'' @ strict_suffix
   \<and> \<not> py_in ''hello'' (''Rewrite {text}'' @ strict_suffix)"
  by (simp add: combine_prompt_def marker_def prepend_def strict_suffix_def nl_def)

text \<open>
  The payload for this template is the same for every captured text and every \<open>fv\<close>.
\<close>

lemma escaped_marker_drops_text:
  "combine_prompt fv c ''Rewrite {{text}}'' = ''Rewrite {text}'' @ strict_suffix"
  by (simp add: combine_prompt_def marker_def prepend_def)

text \<open>
  C5. Take a template without the marker. If its trimmed form is not empty, the payload is
  the trimmed template, then the blank line and the captured text with white space
  removed at the end, then the directive; so when the captured text is not empty and does
  not end in white space, the payload is the trimmed template, a blank line, the captured
  text and the directive, in that order. If its trimmed form is empty, the payload is the
  trimmed captured text and the directive.
\<close>

theorem combine_without_marker:
  assumes "\<not> py_in marker t"
  shows "(strip t \<noteq> [] \<longrightarrow>
            combine_prompt fv c t = strip t @ rstrip ([nl, nl] @ c) @ strict_suffix)
       \<and> (strip t \<noteq> [] \<and> c \<noteq> [] \<and> \<not> is_space (last c) \<longrightarrow>
            combine_prompt fv c t = strip t @ [nl, nl] @ c @ strict_suffix)
       \<and> (strip t = [] \<longrightarrow> combine_prompt fv c t = strip c @ strict_suffix)"
proof -
  have 1: "combine_prompt fv c t = strip t @ rstrip ([nl, nl] @ c) @ strict_suffix"
    if "strip t \<noteq> []"
    using assms that by (simp add: combine_prompt_def strip_after_trimmed)
  have "rstrip ([nl, nl] @ c) = [nl, nl] @ c" if "c \<noteq> []" "\<not> is_space (last c)"
    using that by (intro rstrip_keeps) simp_all
  with 1 have 2: "combine_prompt fv c t = strip t @ [nl, nl] @ c @ strict_suffix"
    if "strip t \<noteq> []" "c \<noteq> []" "\<not> is_space (last c)"
    using that by simp
  have "strip ([nl, nl] @ c) = strip c"
    by (simp add: strip_def lstrip_def is_space_def nl_def)
  then have 3: "combine_prompt fv c t = strip c @ strict_suffix" if "strip t = []"
    using assms that by (simp add: combine_prompt_def)
  show ?thesis using 1 2 3 by blast
qed

theorem combine_without_marker_witness:
  "\<not> py_in marker ''  Make it formal '' \<and> strip ''  Make it formal '' \<noteq> []
   \<and> ''helo wrld'' \<noteq> [] \<and> \<not> is_space (last ''helo wrld'')
   \<and> combine_prompt fields_raise ''helo wrld'' ''  Make it formal ''
       = ''Make it formal'' @ [nl, nl] @ ''helo wrld'' @ strict_suffix
   \<and> \<not> py_in marker ''  '' \<and> strip ''  '' = []
   \<and> combine_prompt fields_raise ''helo wrld'' ''  '' = ''helo wrld'' @ strict_suffix"
proof -
  have s: "strip ''  Make it formal '' = ''Make it formal''"
    by (simp add: strip_def lstrip_def rstrip_def is_space_def)
  have 1: "\<not> py_in marker ''  Make it formal ''" by (simp add: marker_def)
  have 2: "strip ''  Make it formal '' \<noteq> []" by (simp add: s)
  have 3: "''helo wrld'' \<noteq> [] \<and> \<not> is_space (last ''helo wrld'')" by (simp add: is_space_def)
  have 4: "\<not> py_in marker ''  ''" by (simp add: marker_def)
  have 5: "strip ''  '' = []" by (simp add: strip_def lstrip_def rstrip_def is_space_def)
  have 6: "strip ''helo wrld'' = ''helo wrld''"
    by (simp add: strip_def lstrip_def rstrip_def is_space_def)
  from combine_without_marker [OF 1, of fields_raise "''helo wrld''"] 2 3
  have "combine_prompt fields_raise ''helo wrld'' ''  Make it formal ''
          = strip ''  Make it formal '' @ [nl, nl] @ ''helo wrld'' @ strict_suffix"
    by blast
  then have a: "combine_prompt fields_raise ''helo wrld'' ''  Make it formal ''
          = ''Make it formal'' @ [nl, nl] @ ''helo wrld'' @ strict_suffix"
    by (simp only: s)
  from combine_without_marker [OF 4, of fields_raise "''helo wrld''"] 5
  have "combine_prompt fields_raise ''helo wrld'' ''  '' = strip ''helo wrld'' @ strict_suffix"
    by blast
  then have b: "combine_prompt fields_raise ''helo wrld'' ''  '' = ''helo wrld'' @ strict_suffix"
    by (simp only: 6)
  show ?thesis using 1 2 3 a 4 5 b by blast
qed

text \<open>
  The whole of \<open>template.strip()\<close>, blank line and captured text is trimmed once more.
  A captured text that ends in a space loses it, and with an empty template the blank
  line in front of the captured text is trimmed away.
\<close>

theorem combine_without_marker_counterexample:
  "\<not> py_in marker ''Make it formal''
   \<and> combine_prompt fields_raise ''helo wrld '' ''Make it formal''
       = ''Make it formal'' @ [nl, nl] @ ''helo wrld'' @ strict_suffix
   \<and> \<not> py_in ''helo wrld '' (''Make it formal'' @ [nl, nl] @ ''helo wrld'' @ strict_suffix)
   \<and> \<not> py_in marker []
   \<and> combine_prompt fields_raise ''helo wrld'' [] = ''helo wrld'' @ strict_suffix
   \<and> \<not> py_in ([nl, nl] @ ''helo wrld'') (''helo wrld'' @ strict_suffix)"
  by (simp add: combine_prompt_def marker_def strip_def lstrip_def rstrip_def is_space_def
      strict_suffix_def nl_def)

lemma py_in_Nil: "py_in [] s"
  by (simp add: py_in_sublist)

text \<open>
  C6. The resolver appends no marker; the payload keeps the captured text as follows.
  Without the marker in the template, the payload contains the captured text trimmed of
  the white space around it; it contains the captured text trimmed only at the end when
  the trimmed template is not empty; and it contains the captured text as it is when that
  text does not end in white space and either the trimmed template is not empty or the
  text does not start with white space. With the marker in the template, the payload
  contains the captured text as it is when \<open>str.format\<close> raises, and also when the
  text before some marker of the template renders on its own. The prompt editor is what
  appends the marker: the template it stores always contains one.
\<close>

theorem captured_text_kept:
  "(\<not> py_in marker t \<longrightarrow>
      py_in (strip c) (combine_prompt fv c t)
      \<and> (strip t \<noteq> [] \<longrightarrow> py_in (rstrip c) (combine_prompt fv c t))
      \<and> (c \<noteq> [] \<and> \<not> is_space (last c) \<and> (strip t \<noteq> [] \<or> \<not> is_space (hd c)) \<longrightarrow>
            py_in c (combine_prompt fv c t)))
   \<and> (py_in marker t \<and> py_format fv t c = Raises \<longrightarrow> py_in c (combine_prompt fv c t))
   \<and> (py_format fv pre c = Rendered pre' \<longrightarrow>
        py_in c (combine_prompt fv c (pre @ marker @ post)))
   \<and> py_in marker (save_and_close_prompt raw)"
proof -
  have a1: "py_in (strip c) (combine_prompt fv c t)" if "\<not> py_in marker t"
  proof -
    obtain p where "strip ((strip t @ [nl, nl]) @ c) = p @ strip c"
      using strip_append_ends_with by blast
    then have "combine_prompt fv c t = p @ strip c @ strict_suffix"
      using that by (simp add: combine_prompt_def)
    then show ?thesis by (simp add: py_in_middle)
  qed
  have a2: "py_in (rstrip c) (combine_prompt fv c t)" if "\<not> py_in marker t" "strip t \<noteq> []"
  proof -
    have e: "combine_prompt fv c t = strip t @ rstrip ([nl, nl] @ c) @ strict_suffix"
      using that by (simp add: combine_prompt_def strip_after_trimmed)
    show ?thesis
    proof (cases "\<forall>x\<in>set c. is_space x")
      case True
      then have "rstrip c = []" by (rule rstrip_all_space)
      then show ?thesis by (simp add: py_in_Nil)
    next
      case False
      then have "rstrip ([nl, nl] @ c) = [nl, nl] @ rstrip c"
        by (simp only: rstrip_append) simp
      with e have "combine_prompt fv c t = (strip t @ [nl, nl]) @ rstrip c @ strict_suffix"
        by simp
      then show ?thesis by (simp only: py_in_middle)
    qed
  qed
  have a3: "py_in c (combine_prompt fv c t)"
    if "\<not> py_in marker t" "c \<noteq> []" "\<not> is_space (last c)" "strip t \<noteq> [] \<or> \<not> is_space (hd c)"
  proof -
    have r: "rstrip c = c" using that(2,3) by (rule rstrip_keeps)
    show ?thesis
    proof (cases "strip t \<noteq> []")
      case True
      with a2 [OF that(1)] r show ?thesis by simp
    next
      case False
      with that(4) have "\<not> is_space (hd c)" by simp
      with that(2) have "lstrip (c @ []) = c @ []" by (rule lstrip_keeps)
      with r have "strip c = c" by (simp add: strip_def)
      with a1 [OF that(1)] show ?thesis by simp
    qed
  qed
  have b: "py_in c (combine_prompt fv c u)" if "py_in marker u" "py_format fv u c = Raises" for u
  proof -
    have "combine_prompt fv c u = (u @ [nl, nl]) @ c @ strict_suffix"
      using that by (simp add: combine_prompt_def)
    then show ?thesis by (simp only: py_in_middle)
  qed
  have c: "py_in c (combine_prompt fv c (pre @ marker @ post))"
    if pre: "py_format fv pre c = Rendered pre'"
  proof (cases "py_format fv post c")
    case (Rendered post')
    with pre have "py_format fv (pre @ marker @ post) c = Rendered (pre' @ c @ post')"
      by (rule py_format_around_marker)
    then have "combine_prompt fv c (pre @ marker @ post) = pre' @ c @ (post' @ strict_suffix)"
      by (simp add: combine_prompt_def py_in_middle)
    then show ?thesis by (simp only: py_in_middle)
  next
    case Raises
    have "py_format fv (marker @ post) c = prepend c (py_format fv post c)"
      by (rule py_format_append [OF py_format_marker])
    with Raises have "py_format fv (marker @ post) c = Raises" by (simp add: prepend_def)
    with py_format_append [OF pre, of "marker @ post"]
    have "py_format fv (pre @ marker @ post) c = Raises" by (simp add: prepend_def)
    moreover have "py_in marker (pre @ marker @ post)" by (rule py_in_middle)
    ultimately show ?thesis by (intro b)
  qed
  have d: "py_in marker (save_and_close_prompt raw)"
  proof (cases "py_in marker (strip raw)")
    case True
    then show ?thesis by (simp add: save_and_close_prompt_def)
  next
    case False
    obtain p where "strip ((rstrip (strip raw) @ [nl, nl]) @ marker) = p @ strip marker"
      using strip_append_ends_with by blast
    then have "save_and_close_prompt raw = p @ marker @ []"
      using False by (simp add: save_and_close_prompt_def strip_marker)
    then show ?thesis by (simp only: py_in_middle)
  qed
  show ?thesis using a1 a2 a3 b c d by blast
qed

theorem captured_text_kept_witness:
  "\<not> py_in marker ''Summarise'' \<and> strip ''Summarise'' \<noteq> []
   \<and> py_in ''done'' (combine_prompt fields_raise ''  done '' ''Summarise'')
   \<and> py_in ''  done'' (combine_prompt fields_raise ''  done '' ''Summarise'')
   \<and> ''  done'' \<noteq> [] \<and> \<not> is_space (last ''  done'')
   \<and> py_in ''  done'' (combine_prompt fields_raise ''  done'' ''Summarise'')
   \<and> py_in marker ''{text} {'' \<and> py_format fields_raise ''{text} {'' ''  done '' = Raises
   \<and> py_in ''  done '' (combine_prompt fields_raise ''  done '' ''{text} {'')
   \<and> py_format fields_raise ''Summarise: '' ''  done '' = Rendered ''Summarise: ''
   \<and> py_in ''  done '' (combine_prompt fields_raise ''  done '' ''Summarise: {text} and {{more}}'')
   \<and> py_in marker (save_and_close_prompt ''Summarise'')"
proof -
  have 1: "\<not> py_in marker ''Summarise''" by (simp add: marker_def)
  have 2: "strip ''Summarise'' \<noteq> []"
    by (simp add: strip_def lstrip_def rstrip_def is_space_def)
  have 3: "strip ''  done '' = ''done''"
    by (simp add: strip_def lstrip_def rstrip_def is_space_def)
  have 4: "rstrip ''  done '' = ''  done''" by (simp add: rstrip_def is_space_def)
  have 5: "''  done'' \<noteq> [] \<and> \<not> is_space (last ''  done'')" by (simp add: is_space_def)
  have 6: "py_in marker ''{text} {''" by (simp add: marker_def)
  have 7: "py_format fields_raise ''{text} {'' ''  done '' = Raises"
    by (simp add: parse_field_def render_field_def prepend_def)
  have 8: "py_format fields_raise ''Summarise: '' ''  done '' = Rendered ''Summarise: ''"
    by (simp add: prepend_def)
  have 9: "''Summarise: '' @ marker @ '' and {{more}}'' = ''Summarise: {text} and {{more}}''"
    by (simp add: marker_def)
  note k1 = captured_text_kept [of "''Summarise''" "''  done ''" fields_raise "''Summarise: ''"
      "''Summarise: ''" "'' and {{more}}''" "''Summarise''"]
  note k2 = captured_text_kept [of "''Summarise''" "''  done''" fields_raise]
  note k3 = captured_text_kept [of "''{text} {''" "''  done ''" fields_raise]
  from k1 1 2 have a: "py_in (strip ''  done '') (combine_prompt fields_raise ''  done '' ''Summarise'')
      \<and> py_in (rstrip ''  done '') (combine_prompt fields_raise ''  done '' ''Summarise'')"
    by blast
  from k2 1 2 5 have b: "py_in ''  done'' (combine_prompt fields_raise ''  done'' ''Summarise'')"
    by blast
  from k3 6 7 have c: "py_in ''  done '' (combine_prompt fields_raise ''  done '' ''{text} {'')"
    by blast
  from k1 8 have d: "py_in ''  done ''
      (combine_prompt fields_raise ''  done '' (''Summarise: '' @ marker @ '' and {{more}}''))"
    by blast
  from k1 have e: "py_in marker (save_and_close_prompt ''Summarise'')" by blast
  from a have a': "py_in ''done'' (combine_prompt fields_raise ''  done '' ''Summarise'')
      \<and> py_in ''  done'' (combine_prompt fields_raise ''  done '' ''Summarise'')"
    by (simp only: 3 4)
  from d have d': "py_in ''  done ''
      (combine_prompt fields_raise ''  done '' ''Summarise: {text} and {{more}}'')"
    by (simp only: 9)
  show ?thesis using 1 2 a' 5 b 6 7 c 8 d' e by blast
qed

text \<open>
  The captured text \<open>done\<close> followed by a space, with a template without the marker:
  the payload has \<open>done\<close> followed by a line feed, so the captured text as it was is
  not part of it.
\<close>

theorem captured_text_kept_counterexample:
  "\<not> py_in marker ''Summarise''
   \<and> combine_prompt fields_raise ''done '' ''Summarise''
       = ''Summarise'' @ [nl, nl] @ ''done'' @ strict_suffix
   \<and> \<not> py_in ''done '' (''Summarise'' @ [nl, nl] @ ''done'' @ strict_suffix)"
  by (simp add: combine_prompt_def marker_def strip_def lstrip_def rstrip_def is_space_def
      strict_suffix_def nl_def)

text \<open>
  C9. Let the template be \<open>pre\<close>, the marker and \<open>post\<close>, where \<open>pre\<close> and
  \<open>post\<close> render on their own to \<open>pre'\<close> and \<open>post'\<close> (a brace-free text renders to
  itself). The payload is \<open>pre'\<close>, the captured text, \<open>post'\<close> and the directive, and
  the segment cut out of it between \<open>pre'\<close> and \<open>post'\<close> is the captured text
  unchanged.
\<close>

theorem marker_round_trip:
  assumes "py_format fv pre c = Rendered pre'" and "py_format fv post c = Rendered post'"
  shows "combine_prompt fv c (pre @ marker @ post) = pre' @ c @ post' @ strict_suffix
       \<and> inserted_segment pre' post' (combine_prompt fv c (pre @ marker @ post)) = c
       \<and> (brace_free pre \<longrightarrow> pre' = pre) \<and> (brace_free post \<longrightarrow> post' = post)"
proof -
  have "py_format fv (pre @ marker @ post) c = Rendered (pre' @ c @ post')"
    using assms by (rule py_format_around_marker)
  then have 1: "combine_prompt fv c (pre @ marker @ post) = pre' @ c @ post' @ strict_suffix"
    by (simp add: combine_prompt_def py_in_middle)
  have 2: "inserted_segment pre' post' (pre' @ c @ post' @ strict_suffix) = c"
    by (simp add: inserted_segment_def)
  have 3: "pre' = pre" if "brace_free pre"
    using that assms(1) by (simp add: py_format_brace_free)
  have 4: "post' = post" if "brace_free post"
    using that assms(2) by (simp add: py_format_brace_free)
  show ?thesis using 1 2 3 4 by simp
qed

theorem marker_round_trip_witness:
  "py_format fields_raise ''Fix: '' ''helo wrld'' = Rendered ''Fix: ''
   \<and> py_format fields_raise '' Thanks.'' ''helo wrld'' = Rendered '' Thanks.''
   \<and> combine_prompt fields_raise ''helo wrld'' ''Fix: {text} Thanks.''
       = ''Fix: helo wrld Thanks.'' @ strict_suffix
   \<and> inserted_segment ''Fix: '' '' Thanks.''
        (combine_prompt fields_raise ''helo wrld'' ''Fix: {text} Thanks.'') = ''helo wrld''"
proof -
  have 1: "py_format fields_raise ''Fix: '' ''helo wrld'' = Rendered ''Fix: ''"
    by (simp add: prepend_def)
  have 2: "py_format fields_raise '' Thanks.'' ''helo wrld'' = Rendered '' Thanks.''"
    by (simp add: prepend_def)
  have 3: "''Fix: '' @ marker @ '' Thanks.'' = ''Fix: {text} Thanks.''" by (simp add: marker_def)
  have 4: "''Fix: '' @ ''helo wrld'' @ '' Thanks.'' @ strict_suffix
             = ''Fix: helo wrld Thanks.'' @ strict_suffix" by simp
  from marker_round_trip [OF 1 2, unfolded 3 4] 1 2 show ?thesis by blast
qed

text \<open>
  A template with the marker and a single open brace makes \<open>str.format\<close> raise: the
  payload keeps the literal marker and has the captured text after the template, not at
  the marker. A template with the marker in doubled braces gives a payload without the
  captured text.
\<close>

theorem marker_round_trip_counterexample:
  "py_in marker ''Wrap {text} in {''
   \<and> combine_prompt fields_raise ''hello'' ''Wrap {text} in {''
       = ''Wrap {text} in {'' @ [nl, nl] @ ''hello'' @ strict_suffix
   \<and> inserted_segment ''Wrap '' '' in {''
        (''Wrap {text} in {'' @ [nl, nl] @ ''hello'' @ strict_suffix) \<noteq> ''hello''
   \<and> py_in marker ''{{text}}''
   \<and> combine_prompt fields_raise ''hello'' ''{{text}}'' = ''{text}'' @ strict_suffix
   \<and> \<not> py_in ''hello'' (''{text}'' @ strict_suffix)"
  by (simp add: combine_prompt_def marker_def prepend_def parse_field_def render_field_def
      inserted_segment_def strict_suffix_def nl_def)

text \<open>Both payloads are the same for every \<open>fv\<close>.\<close>

lemma open_brace_falls_back:
  "combine_prompt fv c ''Wrap {text} in {'' = ''Wrap {text} in {'' @ [nl, nl] @ c @ strict_suffix"
  by (simp add: combine_prompt_def marker_def prepend_def parse_field_def render_field_def)

lemma doubled_braces_drop_text:
  "combine_prompt fv c ''{{text}}'' = ''{text}'' @ strict_suffix"
  by (simp add: combine_prompt_def marker_def prepend_def)

section \<open>The settings store\<close>

text \<open>
  C8. When the settings file is missing or cannot be parsed, \<open>load_config\<close> writes the
  default record, whose credential is the placeholder, to the file and returns it; a
  second \<open>load_config\<close> on the resulting disk returns the same record and leaves the
  disk as it is.
\<close>

theorem load_config_recovers:
  assumes "config_file w = Missing \<or> config_file w = Corrupt"
  shows "\<exists>w'. load_config w = (default_config, w')
            \<and> config_file w' = Holds default_config
            \<and> load_config w' = (default_config, w')
            \<and> py_get default_config ''api_key'' (JStr []) = Inr (JStr placeholder)"
  using assms by (auto simp: load_config_def save_config_def default_config_def py_get_def)

theorem load_config_recovers_witness:
  "config_file \<lparr>config_file = Corrupt, prompts_file = Missing, sent = []\<rparr> = Corrupt
   \<and> (\<exists>w'. load_config \<lparr>config_file = Corrupt, prompts_file = Missing, sent = []\<rparr>
              = (default_config, w')
            \<and> config_file w' = Holds default_config
            \<and> load_config w' = (default_config, w'))"
proof -
  have h: "config_file \<lparr>config_file = Corrupt, prompts_file = Missing, sent = []\<rparr> = Corrupt"
    by simp
  from load_config_recovers [of "\<lparr>config_file = Corrupt, prompts_file = Missing, sent = []\<rparr>"] h
  show ?thesis by blast
qed

section \<open>The template store\<close>

lemma load_prompts_returns_defaults:
  assumes "prompts_file w = Missing \<or> prompts_file w = Corrupt
           \<or> (\<exists>v. prompts_file w = Holds v \<and> \<not> isinstance_list v)"
  shows "fst (load_prompts w) = default_prompts"
  using assms by (auto simp: load_prompts_def)

lemma load_prompts_repairs_missing_or_corrupt:
  assumes "prompts_file w = Missing \<or> prompts_file w = Corrupt"
  shows "prompts_file (snd (load_prompts w)) = Holds default_prompts"
  using assms by (auto simp: load_prompts_def save_prompts_def)

text \<open>
  C4. A template file that holds the JSON object \<open>{}\<close>, which is not a list: the two
  defaults are returned, but the file still holds \<open>{}\<close> afterwards. The branches for a
  missing and for an unparsable file call \<open>save_prompts\<close>; this branch does not.
\<close>

theorem load_prompts_non_list_keeps_file:
  "load_prompts \<lparr>config_file = Missing, prompts_file = Holds (JObj []), sent = []\<rparr>
     = (default_prompts, \<lparr>config_file = Missing, prompts_file = Holds (JObj []), sent = []\<rparr>)
   \<and> Holds (JObj []) \<noteq> Holds default_prompts"
  by (simp add: load_prompts_def isinstance_list_def default_prompts_def)

section \<open>The one-shot paste\<close>



section \<open>The API client\<close>

text \<open>
  C7. When the credential is not configured (the settings file is missing or unparsable,
  or the settings object has no \<open>api_key\<close>, or the key is blank after trimming, or it is
  the placeholder), \<open>call_openrouter_api\<close> raises the RuntimeError for the missing key,
  whatever the network would answer, and the list of requests sent is what it was.
\<close>

theorem api_key_missing_no_request:
  assumes "credential_unusable (config_file w)"
  shows "\<exists>w'. call_openrouter_api fv remote w captured_text instruction = (Inl ApiKeyMissing, w')
             \<and> sent w' = sent w"
  using assms
  by (auto simp: credential_unusable_def call_openrouter_api_def load_config_def save_config_def
        default_config_def py_get_def py_strip_def strip_placeholder strip_Nil
      split: stored_file.splits json.splits option.splits)

theorem api_key_missing_no_request_witness:
  "credential_unusable (config_file
      \<lparr>config_file = Holds (JObj [(''api_key'', JStr placeholder)]), prompts_file = Missing, sent = []\<rparr>)
   \<and> (\<exists>w'. call_openrouter_api fields_raise (\<lambda>r. Reply 200 None)
        \<lparr>config_file = Holds (JObj [(''api_key'', JStr placeholder)]), prompts_file = Missing, sent = []\<rparr>
        ''helo wrld'' ''Fix Grammar''
      = (Inl ApiKeyMissing, w') \<and> sent w' = [])"
proof -
  have h: "credential_unusable (config_file
      \<lparr>config_file = Holds (JObj [(''api_key'', JStr placeholder)]), prompts_file = Missing, sent = []\<rparr>)"
    by (simp add: credential_unusable_def)
  from api_key_missing_no_request [OF h, of fields_raise "\<lambda>r. Reply 200 None" "''helo wrld''"
      "''Fix Grammar''"]
  show ?thesis using h by simp
qed

lemma truthy_empty_value: "truthy v \<longleftrightarrow> \<not> empty_value v"
  by (cases v) (auto simp: truthy_def empty_value_def)

lemma call_reaches_content:
  assumes "config_file w = Holds (JObj cfg)" "map_of cfg ''api_key'' = Some (JStr k)"
      "strip k \<noteq> []" "strip k \<noteq> placeholder"
    and "p = combine_prompt fv captured_text instruction"
    and "remote (build_request (strip k) p) = Reply status (Some data)"
      "\<not> (400 \<le> status \<and> status < 600)"
  shows "call_openrouter_api fv remote w captured_text instruction
           = (first_choice_content data, w\<lparr>sent := sent w @ [build_request (strip k) p]\<rparr>)"
  using assms
  by (auto simp: call_openrouter_api_def load_config_def py_get_def py_strip_def Let_def)

lemma no_choices:
  "map_of body ''choices'' = None \<or> map_of body ''choices'' = Some (JArr []) \<Longrightarrow>
   first_choice_content (JObj body) = Inl NoChoices"
  by (auto simp: first_choice_content_def py_get_def truthy_def)

lemma content_of_first_choice:
  assumes "map_of body ''choices'' = Some (JArr (JObj choice # rest))"
  shows "map_of choice ''message'' = None \<Longrightarrow> first_choice_content (JObj body) = Inl EmptyContent"
    and "map_of choice ''message'' = Some (JObj message) \<Longrightarrow> map_of message ''content'' = None \<Longrightarrow>
         first_choice_content (JObj body) = Inl EmptyContent"
    and "map_of choice ''message'' = Some (JObj message) \<Longrightarrow> map_of message ''content'' = Some v \<Longrightarrow>
         first_choice_content (JObj body) = (if empty_value v then Inl EmptyContent else Inr v)"
  using assms
  by (simp_all add: first_choice_content_def py_get_def py_first_def truthy_empty_value
      empty_value_def)

lemma ill_shaped:
  "(\<forall>body. data \<noteq> JObj body) \<Longrightarrow> first_choice_content data = Inl AttributeError"
  "map_of body ''choices'' = Some c \<Longrightarrow> empty_value c \<Longrightarrow>
     first_choice_content (JObj body) = Inl NoChoices"
  "map_of body ''choices'' = Some c \<Longrightarrow> c = JBool True \<or> (\<exists>n. c = JNum n \<and> n \<noteq> 0) \<Longrightarrow>
     first_choice_content (JObj body) = Inl TypeError"
  "map_of body ''choices'' = Some (JObj kv) \<Longrightarrow> kv \<noteq> [] \<Longrightarrow>
     first_choice_content (JObj body) = Inl KeyError"
  "map_of body ''choices'' = Some (JStr s) \<Longrightarrow> s \<noteq> [] \<Longrightarrow>
     first_choice_content (JObj body) = Inl AttributeError"
  "map_of body ''choices'' = Some (JArr (x # rest)) \<Longrightarrow> (\<forall>choice. x \<noteq> JObj choice) \<Longrightarrow>
     first_choice_content (JObj body) = Inl AttributeError"
  "map_of body ''choices'' = Some (JArr (JObj choice # rest)) \<Longrightarrow>
     map_of choice ''message'' = Some m \<Longrightarrow> (\<forall>message. m \<noteq> JObj message) \<Longrightarrow>
     first_choice_content (JObj body) = Inl AttributeError"
  by (auto simp: first_choice_content_def py_get_def py_first_def truthy_def empty_value_def
      split: json.splits list.splits)

lemma payload_fix_grammar:
  "combine_prompt fields_raise ''helo wrld'' ''Fix Grammar''
     = ''Fix Grammar'' @ [nl, nl] @ ''helo wrld'' @ strict_suffix"
  by (simp add: combine_prompt_def marker_def strip_def lstrip_def rstrip_def is_space_def nl_def)

lemma strip_sample_key: "strip ''sk-or-1'' = ''sk-or-1''"
  by (simp add: strip_def lstrip_def rstrip_def is_space_def)

text \<open>
  C2. A call that gets past the credential check and whose one request, carrying the
  payload \<open>p\<close>, is answered with a status outside 400 to 599 and a JSON value \<open>data\<close>;
  \<open>r\<close> is what the call gives. In every case exactly the one request has been sent.
  For an object \<open>data\<close>: without \<open>choices\<close>, or with an empty list of them, the call
  raises the RuntimeError for no choices. When the first choice is an object: if it has
  no \<open>message\<close>, or the message is an object without \<open>content\<close>, or the content is
  \<open>None\<close>, \<open>False\<close>, zero or an empty string, list or dict, the call raises the
  RuntimeError for empty content; any other content is returned as it is. The remaining
  shapes: \<open>choices\<close> that is \<open>None\<close>, \<open>False\<close>, zero or an empty string or dict
  raises the RuntimeError for no choices; \<open>data\<close>, a first choice or a message that is
  not an object, and \<open>choices\<close> that is a string, raise AttributeError; \<open>choices\<close>
  that is \<open>True\<close> or a number raises TypeError, and a dict raises KeyError.
\<close>

theorem response_content:
  assumes cfg: "config_file w = Holds (JObj cfg)" "map_of cfg ''api_key'' = Some (JStr k)"
      "strip k \<noteq> []" "strip k \<noteq> placeholder"
    and payload: "p = combine_prompt fv captured_text instruction"
    and reply: "remote (build_request (strip k) p) = Reply status (Some data)"
      "\<not> (400 \<le> status \<and> status < 600)"
    and w2: "w2 = w\<lparr>sent := sent w @ [build_request (strip k) p]\<rparr>"
    and r: "r = call_openrouter_api fv remote w captured_text instruction"
  shows "(\<forall>body. data = JObj body \<and>
            (map_of body ''choices'' = None \<or> map_of body ''choices'' = Some (JArr [])) \<longrightarrow>
            r = (Inl NoChoices, w2))
       \<and> (\<forall>body choice rest. data = JObj body \<and>
            map_of body ''choices'' = Some (JArr (JObj choice # rest)) \<and>
            map_of choice ''message'' = None \<longrightarrow>
            r = (Inl EmptyContent, w2))
       \<and> (\<forall>body choice rest message. data = JObj body \<and>
            map_of body ''choices'' = Some (JArr (JObj choice # rest)) \<and>
            map_of choice ''message'' = Some (JObj message) \<and>
            map_of message ''content'' = None \<longrightarrow>
            r = (Inl EmptyContent, w2))
       \<and> (\<forall>body choice rest message v. data = JObj body \<and>
            map_of body ''choices'' = Some (JArr (JObj choice # rest)) \<and>
            map_of choice ''message'' = Some (JObj message) \<and>
            map_of message ''content'' = Some v \<longrightarrow>
            r = (if empty_value v then Inl EmptyContent else Inr v, w2))
       \<and> ((\<forall>body. data \<noteq> JObj body) \<longrightarrow> r = (Inl AttributeError, w2))
       \<and> (\<forall>body c. data = JObj body \<and> map_of body ''choices'' = Some c \<and> empty_value c \<longrightarrow>
            r = (Inl NoChoices, w2))
       \<and> (\<forall>body c. data = JObj body \<and> map_of body ''choices'' = Some c \<and>
            (c = JBool True \<or> (\<exists>n. c = JNum n \<and> n \<noteq> 0)) \<longrightarrow>
            r = (Inl TypeError, w2))
       \<and> (\<forall>body kv. data = JObj body \<and> map_of body ''choices'' = Some (JObj kv) \<and> kv \<noteq> [] \<longrightarrow>
            r = (Inl KeyError, w2))
       \<and> (\<forall>body s. data = JObj body \<and> map_of body ''choices'' = Some (JStr s) \<and> s \<noteq> [] \<longrightarrow>
            r = (Inl AttributeError, w2))
       \<and> (\<forall>body x rest. data = JObj body \<and> map_of body ''choices'' = Some (JArr (x # rest)) \<and>
            (\<forall>choice. x \<noteq> JObj choice) \<longrightarrow>
            r = (Inl AttributeError, w2))
       \<and> (\<forall>body choice rest m. data = JObj body \<and>
            map_of body ''choices'' = Some (JArr (JObj choice # rest)) \<and>
            map_of choice ''message'' = Some m \<and> (\<forall>message. m \<noteq> JObj message) \<longrightarrow>
            r = (Inl AttributeError, w2))"
proof -
  have c: "r = (first_choice_content data, w2)"
    using call_reaches_content [where remote = remote and data = data and fv = fv
          and captured_text = captured_text and instruction = instruction and p = p and k = k,
        OF cfg payload reply] w2 r
    by simp
  have 1: "\<forall>body. data = JObj body \<and>
            (map_of body ''choices'' = None \<or> map_of body ''choices'' = Some (JArr [])) \<longrightarrow>
            r = (Inl NoChoices, w2)"
    unfolding c by (auto simp: no_choices)
  have 2: "\<forall>body choice rest. data = JObj body \<and>
            map_of body ''choices'' = Some (JArr (JObj choice # rest)) \<and>
            map_of choice ''message'' = None \<longrightarrow>
            r = (Inl EmptyContent, w2)"
    unfolding c by (auto simp: content_of_first_choice)
  have 3: "\<forall>body choice rest message. data = JObj body \<and>
            map_of body ''choices'' = Some (JArr (JObj choice # rest)) \<and>
            map_of choice ''message'' = Some (JObj message) \<and>
            map_of message ''content'' = None \<longrightarrow>
            r = (Inl EmptyContent, w2)"
    unfolding c by (auto simp: content_of_first_choice)
  have 4: "\<forall>body choice rest message v. data = JObj body \<and>
            map_of body ''choices'' = Some (JArr (JObj choice # rest)) \<and>
            map_of choice ''message'' = Some (JObj message) \<and>
            map_of message ''content'' = Some v \<longrightarrow>
            r = (if empty_value v then Inl EmptyContent else Inr v, w2)"
    unfolding c by (auto simp: content_of_first_choice)
  have 5: "(\<forall>body. data \<noteq> JObj body) \<longrightarrow> r = (Inl AttributeError, w2)"
    unfolding c by (simp add: ill_shaped(1))
  have 6: "\<forall>body c. data = JObj body \<and> map_of body ''choices'' = Some c \<and> empty_value c \<longrightarrow>
            r = (Inl NoChoices, w2)"
    unfolding c by (auto simp: ill_shaped(2))
  have 7: "\<forall>body c. data = JObj body \<and> map_of body ''choices'' = Some c \<and>
            (c = JBool True \<or> (\<exists>n. c = JNum n \<and> n \<noteq> 0)) \<longrightarrow>
            r = (Inl TypeError, w2)"
    unfolding c using ill_shaped(3) by blast
  have 8: "\<forall>body kv. data = JObj body \<and> map_of body ''choices'' = Some (JObj kv) \<and> kv \<noteq> [] \<longrightarrow>
            r = (Inl KeyError, w2)"
    unfolding c by (auto simp: ill_shaped(4))
  have 9: "\<forall>body s. data = JObj body \<and> map_of body ''choices'' = Some (JStr s) \<and> s \<noteq> [] \<longrightarrow>
            r = (Inl AttributeError, w2)"
    unfolding c by (auto simp: ill_shaped(5))
  have 10: "\<forall>body x rest. data = JObj body \<and> map_of body ''choices'' = Some (JArr (x # rest)) \<and>
            (\<forall>choice. x \<noteq> JObj choice) \<longrightarrow>
            r = (Inl AttributeError, w2)"
    unfolding c using ill_shaped(6) by blast
  have 11: "\<forall>body choice rest m. data = JObj body \<and>
            map_of body ''choices'' = Some (JArr (JObj choice # rest)) \<and>
            map_of choice ''message'' = Some m \<and> (\<forall>message. m \<noteq> JObj message) \<longrightarrow>
            r = (Inl AttributeError, w2)"
    unfolding c using ill_shaped(7) by blast
  show ?thesis using 1 2 3 4 5 6 7 8 9 10 11 by (intro conjI)
qed

theorem response_content_witness:
  "call_openrouter_api fields_raise
     (reply_ok (JObj [(''choices'', JArr [JObj [(''message'', JObj [(''content'', JStr ''Hello'')])]])]))
     \<lparr>config_file = Holds (JObj [(''api_key'', JStr ''sk-or-1'')]), prompts_file = Missing, sent = []\<rparr>
     ''helo wrld'' ''Fix Grammar''
   = (Inr (JStr ''Hello''),
       \<lparr>config_file = Holds (JObj [(''api_key'', JStr ''sk-or-1'')]), prompts_file = Missing,
        sent = [build_request ''sk-or-1''
                  (''Fix Grammar'' @ [nl, nl] @ ''helo wrld'' @ strict_suffix)]\<rparr>)
   \<and> call_openrouter_api fields_raise (reply_ok (JObj [(''choices'', JArr [])]))
     \<lparr>config_file = Holds (JObj [(''api_key'', JStr ''sk-or-1'')]), prompts_file = Missing, sent = []\<rparr>
     ''helo wrld'' ''Fix Grammar''
   = (Inl NoChoices,
       \<lparr>config_file = Holds (JObj [(''api_key'', JStr ''sk-or-1'')]), prompts_file = Missing,
        sent = [build_request ''sk-or-1''
                  (''Fix Grammar'' @ [nl, nl] @ ''helo wrld'' @ strict_suffix)]\<rparr>)"
proof -
  let ?hello = "[(''choices'', JArr [JObj [(''message'', JObj [(''content'', JStr ''Hello'')])]])]"
  let ?none = "[(''choices'', JArr [])] :: (string \<times> json) list"
  let ?w = "\<lparr>config_file = Holds (JObj [(''api_key'', JStr ''sk-or-1'')]), prompts_file = Missing,
             sent = []\<rparr>"
  let ?p = "''Fix Grammar'' @ [nl, nl] @ ''helo wrld'' @ strict_suffix"
  let ?w2 = "?w\<lparr>sent := sent ?w @ [build_request (strip ''sk-or-1'') ?p]\<rparr>"
  have 1: "config_file ?w = Holds (JObj [(''api_key'', JStr ''sk-or-1'')])" by simp
  have 2: "map_of [(''api_key'', JStr ''sk-or-1'')] ''api_key'' = Some (JStr ''sk-or-1'')" by simp
  have 3: "strip ''sk-or-1'' \<noteq> []" by (simp add: strip_sample_key)
  have 4: "strip ''sk-or-1'' \<noteq> placeholder" by (simp add: strip_sample_key placeholder_def)
  have 5: "?p = combine_prompt fields_raise ''helo wrld'' ''Fix Grammar''"
    by (simp only: payload_fix_grammar)
  have 6: "reply_ok (JObj ?hello) (build_request (strip ''sk-or-1'') ?p)
             = Reply 200 (Some (JObj ?hello))"
    by (simp add: reply_ok_def)
  have 8: "reply_ok (JObj ?none) (build_request (strip ''sk-or-1'') ?p)
             = Reply 200 (Some (JObj ?none))"
    by (simp add: reply_ok_def)
  have 7: "\<not> (400 \<le> (200::nat) \<and> (200::nat) < 600)" by simp
  have e: "\<not> empty_value (JStr ''Hello'')" by (simp add: empty_value_def)
  have s: "?w2 = \<lparr>config_file = Holds (JObj [(''api_key'', JStr ''sk-or-1'')]),
                  prompts_file = Missing, sent = [build_request ''sk-or-1'' ?p]\<rparr>"
    by (simp add: strip_sample_key)
  from response_content [where remote = "reply_ok (JObj ?hello)" and data = "JObj ?hello"
      and fv = fields_raise and captured_text = "''helo wrld''" and instruction = "''Fix Grammar''"
      and p = ?p and k = "''sk-or-1''", OF 1 2 3 4 5 6 7 refl refl]
  have "call_openrouter_api fields_raise (reply_ok (JObj ?hello)) ?w ''helo wrld'' ''Fix Grammar''
          = (if empty_value (JStr ''Hello'') then Inl EmptyContent else Inr (JStr ''Hello''), ?w2)"
    by simp
  with e have a: "call_openrouter_api fields_raise (reply_ok (JObj ?hello)) ?w ''helo wrld''
                    ''Fix Grammar'' = (Inr (JStr ''Hello''), ?w2)"
    by simp
  from response_content [where remote = "reply_ok (JObj ?none)" and data = "JObj ?none"
      and fv = fields_raise and captured_text = "''helo wrld''" and instruction = "''Fix Grammar''"
      and p = ?p and k = "''sk-or-1''", OF 1 2 3 4 5 8 7 refl refl]
  have b: "call_openrouter_api fields_raise (reply_ok (JObj ?none)) ?w ''helo wrld''
             ''Fix Grammar'' = (Inl NoChoices, ?w2)"
    by simp
  show ?thesis using a b unfolding s by simp
qed

text \<open>
  A reply whose first choice has the content \<open>null\<close>: the list of choices is not empty
  and the content is not the empty string, yet the call raises the RuntimeError for empty
  content instead of returning the content.
\<close>

theorem response_content_counterexample:
  "call_openrouter_api fields_raise
     (reply_ok (JObj [(''choices'', JArr [JObj [(''message'', JObj [(''content'', JNull)])]])]))
     \<lparr>config_file = Holds (JObj [(''api_key'', JStr ''sk-or-1'')]), prompts_file = Missing, sent = []\<rparr>
     ''helo wrld'' ''Fix Grammar''
   = (Inl EmptyContent,
       \<lparr>config_file = Holds (JObj [(''api_key'', JStr ''sk-or-1'')]), prompts_file = Missing,
        sent = [build_request ''sk-or-1''
                  (''Fix Grammar'' @ [nl, nl] @ ''helo wrld'' @ strict_suffix)]\<rparr>)
   \<and> JNull \<noteq> JStr []"
  by (simp add: call_openrouter_api_def load_config_def py_get_def py_strip_def Let_def
      strip_sample_key placeholder_def payload_fix_grammar reply_ok_def first_choice_content_def
      py_first_def truthy_def)

section \<open>The prompt picker\<close>

lemma keys_fold_update:
  "map fst (fold (\<lambda>p d. AList.update (fst p) (snd p) d) ps d) = fold add_key (map fst ps) (map fst d)"
  by (induction ps arbitrary: d) (simp_all add: update_keys add_key_def)

lemma remdups_later: "x \<in> set B \<Longrightarrow> remdups (A @ x # B) = remdups (A @ B)"
  by (induction A) auto

lemma fold_add_key:
  "distinct acc \<Longrightarrow> fold add_key xs acc = rev (remdups (rev (acc @ xs)))"
proof (induction xs arbitrary: acc)
  case Nil
  then show ?case by (simp add: distinct_remdups_id)
next
  case (Cons x xs)
  show ?case
  proof (cases "x \<in> set acc")
    case True
    then have "remdups (rev xs @ x # rev acc) = remdups (rev xs @ rev acc)"
      by (intro remdups_later) simp
    with True Cons show ?thesis by (simp add: add_key_def)
  next
    case False
    with Cons.prems have "distinct (acc @ [x])" by simp
    from Cons.IH [OF this] False show ?thesis by (simp add: add_key_def)
  qed
qed

lemma keys_name_to_prompt:
  "map fst (name_to_prompt (new_prompt_window prompts)) = first_stored (map fst prompts)"
  using fold_add_key [of "[]" "map fst prompts"] keys_fold_update [of prompts "[]"]
  by (simp add: new_prompt_window_def Let_def first_stored_def)

lemma map_of_fold_update:
  "map_of (fold (\<lambda>p d. AList.update (fst p) (snd p) d) ps d) = map_of d ++ map_of (rev ps)"
proof (induction ps arbitrary: d)
  case Nil
  then show ?case by simp
next
  case (Cons p ps)
  have "map_of (AList.update (fst p) (snd p) d) ++ map_of (rev ps)
          = map_of d ++ (map_of [p] ++ map_of (rev ps))"
    by (cases p) (auto simp: update_conv' map_add_def fun_eq_iff split: option.splits)
  with Cons show ?case by (simp add: map_of_append)
qed

lemma map_of_name_to_prompt:
  "map_of (name_to_prompt (new_prompt_window prompts)) = map_of (rev prompts)"
  using map_of_fold_update [of prompts "[]"] by (simp add: new_prompt_window_def Let_def)

lemma sorted_prompt_names_eq:
  "sorted_prompt_names (new_prompt_window prompts)
     = sort_key lower (map fst (name_to_prompt (new_prompt_window prompts)))"
  by (simp add: new_prompt_window_def Let_def)

text \<open>
  C3. The keys of the dict \<open>name_to_prompt\<close> are the stored names in the order in which
  each is first stored, and the template under a name is the last one stored with it. The
  names on the buttons are these keys sorted by their lower-case form, names with the same
  lower-case form staying in key order. With the item at an index \<open>i\<close> within range
  highlighted, \<open>_submit\<close> picks the \<open>i\<close>-th key and dispatches the template stored
  under it (nothing when that template is empty), while the highlighted button shows the
  \<open>i\<close>-th sorted name. The picked name is the highlighted name at \<open>i\<close> exactly when the
  \<open>i\<close>-th key is the \<open>i\<close>-th sorted name, and at every index exactly when the keys
  in insertion order are the sorted list.
\<close>

theorem picker_dispatch_by_insertion_order:
  fixes prompts :: "(string \<times> string) list"
  defines "keys \<equiv> first_stored (map fst prompts)"
    and "shown \<equiv> sorted_prompt_names (new_prompt_window prompts)"
  shows "map fst (name_to_prompt (new_prompt_window prompts)) = keys
       \<and> map_of (name_to_prompt (new_prompt_window prompts)) = map_of (rev prompts)
       \<and> sorted (map lower shown) \<and> length shown = length keys
       \<and> (\<forall>k. filter (\<lambda>n. lower n = k) shown = filter (\<lambda>n. lower n = k) keys)
       \<and> (\<forall>i. 0 \<le> i \<and> i < int (length keys) \<longrightarrow>
            selected_name (open_picker prompts i) = Some (keys ! nat i)
          \<and> highlighted_name (open_picker prompts i) = Some (shown ! nat i)
          \<and> (\<exists>t. map_of (rev prompts) (keys ! nat i) = Some t
                 \<and> submit (open_picker prompts i) entry = (if t = [] then None else Some t))
          \<and> (selected_name (open_picker prompts i) = highlighted_name (open_picker prompts i)
                \<longleftrightarrow> keys ! nat i = shown ! nat i))
       \<and> ((\<forall>i. 0 \<le> i \<and> i < int (length keys) \<longrightarrow>
              selected_name (open_picker prompts i) = highlighted_name (open_picker prompts i))
            \<longleftrightarrow> keys = shown)"
proof -
  let ?d = "name_to_prompt (new_prompt_window prompts)"
  have k: "map fst ?d = keys" by (simp add: keys_def keys_name_to_prompt)
  have m: "map_of ?d = map_of (rev prompts)" by (rule map_of_name_to_prompt)
  have sh: "shown = sort_key lower keys"
    using k by (simp add: shown_def sorted_prompt_names_eq)
  have s1: "sorted (map lower shown)" by (simp add: sh)
  have s2: "length shown = length keys" by (simp add: sh)
  have s3: "\<forall>k. filter (\<lambda>n. lower n = k) shown = filter (\<lambda>n. lower n = k) keys"
    by (simp add: sh sort_key_stable)
  have len: "length ?d = length keys" using k by (metis length_map)
  have sel: "selected_name (open_picker prompts i) = Some (keys ! nat i)"
    if "0 \<le> i" "i < int (length keys)" for i
    using that k len by (simp add: selected_name_def open_picker_def select_prompt_def
        enter_prompt_select_def Let_def)
  have hi: "highlighted_name (open_picker prompts i) = Some (shown ! nat i)"
    if "0 \<le> i" "i < int (length keys)" for i
    using that s2 by (simp add: highlighted_name_def open_picker_def select_prompt_def
        enter_prompt_select_def Let_def shown_def)
  have sub: "\<exists>t. map_of (rev prompts) (keys ! nat i) = Some t
                 \<and> submit (open_picker prompts i) entry = (if t = [] then None else Some t)"
    if "0 \<le> i" "i < int (length keys)" for i
  proof -
    have "keys ! nat i \<in> set (map fst ?d)"
      using that k by (metis nat_less_iff nth_mem)
    then have "keys ! nat i \<in> fst ` set ?d" by simp
    then obtain t where t: "map_of ?d (keys ! nat i) = Some t"
      by (metis domD dom_map_of_conv_image_fst)
    have "prompt_select_mode (open_picker prompts i)"
      by (simp add: open_picker_def select_prompt_def enter_prompt_select_def)
    moreover have "name_to_prompt (open_picker prompts i) = ?d"
      by (simp add: open_picker_def select_prompt_def enter_prompt_select_def)
    ultimately have "submit (open_picker prompts i) entry = (if t = [] then None else Some t)"
      using t sel [OF that] by (simp add: submit_def)
    with t m show ?thesis by simp
  qed
  have per: "\<forall>i. 0 \<le> i \<and> i < int (length keys) \<longrightarrow>
            selected_name (open_picker prompts i) = Some (keys ! nat i)
          \<and> highlighted_name (open_picker prompts i) = Some (shown ! nat i)
          \<and> (\<exists>t. map_of (rev prompts) (keys ! nat i) = Some t
                 \<and> submit (open_picker prompts i) entry = (if t = [] then None else Some t))
          \<and> (selected_name (open_picker prompts i) = highlighted_name (open_picker prompts i)
                \<longleftrightarrow> keys ! nat i = shown ! nat i)"
    using sel hi sub by simp
  have iff: "(\<forall>i. 0 \<le> i \<and> i < int (length keys) \<longrightarrow>
              selected_name (open_picker prompts i) = highlighted_name (open_picker prompts i))
            \<longleftrightarrow> keys = shown"
  proof
    assume a: "\<forall>i. 0 \<le> i \<and> i < int (length keys) \<longrightarrow>
              selected_name (open_picker prompts i) = highlighted_name (open_picker prompts i)"
    show "keys = shown"
    proof (rule nth_equalityI)
      show "length keys = length shown" by (simp add: s2)
    next
      fix n assume "n < length keys"
      then have b: "0 \<le> int n" "int n < int (length keys)" by simp_all
      from a b have "selected_name (open_picker prompts (int n))
                       = highlighted_name (open_picker prompts (int n))"
        by blast
      with sel [OF b] hi [OF b] show "keys ! n = shown ! n" by simp
    qed
  next
    assume e: "keys = shown"
    show "\<forall>i. 0 \<le> i \<and> i < int (length keys) \<longrightarrow>
              selected_name (open_picker prompts i) = highlighted_name (open_picker prompts i)"
      using sel hi e by simp
  qed
  show ?thesis using k m s1 s2 s3 per iff by (intro conjI)
qed

theorem picker_dispatch_by_insertion_order_witness:
  "first_stored (map fst [(''apple'', ''A1 {text}''), (''Banana'', ''B {text}''), (''apple'', ''A2 {text}'')])
     = [''apple'', ''Banana'']
   \<and> sorted_prompt_names
        (new_prompt_window [(''apple'', ''A1 {text}''), (''Banana'', ''B {text}''), (''apple'', ''A2 {text}'')])
     = [''apple'', ''Banana'']
   \<and> selected_name
        (open_picker [(''apple'', ''A1 {text}''), (''Banana'', ''B {text}''), (''apple'', ''A2 {text}'')] 0)
     = Some ''apple''
   \<and> highlighted_name
        (open_picker [(''apple'', ''A1 {text}''), (''Banana'', ''B {text}''), (''apple'', ''A2 {text}'')] 0)
     = Some ''apple''
   \<and> submit
        (open_picker [(''apple'', ''A1 {text}''), (''Banana'', ''B {text}''), (''apple'', ''A2 {text}'')] 0)
        ''/''
     = Some ''A2 {text}''
   \<and> selected_name
        (open_picker [(''apple'', ''A1 {text}''), (''Banana'', ''B {text}''), (''apple'', ''A2 {text}'')] 1)
     = highlighted_name
        (open_picker [(''apple'', ''A1 {text}''), (''Banana'', ''B {text}''), (''apple'', ''A2 {text}'')] 1)"
proof -
  let ?P = "[(''apple'', ''A1 {text}''), (''Banana'', ''B {text}''), (''apple'', ''A2 {text}'')]"
  have keys: "first_stored (map fst ?P) = [''apple'', ''Banana'']"
    by (simp add: first_stored_def)
  have shown: "sorted_prompt_names (new_prompt_window ?P) = [''apple'', ''Banana'']"
    by code_simp
  have r0: "0 \<le> (0::int) \<and> 0 < int (length (first_stored (map fst ?P)))" unfolding keys by simp
  have r1: "0 \<le> (1::int) \<and> 1 < int (length (first_stored (map fst ?P)))" unfolding keys by simp
  have look: "map_of (rev ?P) ''apple'' = Some ''A2 {text}''" by simp
  note t = picker_dispatch_by_insertion_order [of ?P "''/''"]
  from t r0 have a: "selected_name (open_picker ?P 0) = Some (first_stored (map fst ?P) ! nat 0)
      \<and> highlighted_name (open_picker ?P 0) = Some (sorted_prompt_names (new_prompt_window ?P) ! nat 0)
      \<and> (\<exists>t. map_of (rev ?P) (first_stored (map fst ?P) ! nat 0) = Some t
             \<and> submit (open_picker ?P 0) ''/'' = (if t = [] then None else Some t))"
    by blast
  from t keys shown have "\<forall>i. 0 \<le> i \<and> i < int (length (first_stored (map fst ?P))) \<longrightarrow>
      selected_name (open_picker ?P i) = highlighted_name (open_picker ?P i)"
    by metis
  with r1 have b: "selected_name (open_picker ?P 1) = highlighted_name (open_picker ?P 1)"
    by blast
  from a have a': "selected_name (open_picker ?P 0) = Some ''apple''
      \<and> highlighted_name (open_picker ?P 0) = Some ''apple''
      \<and> submit (open_picker ?P 0) ''/'' = Some ''A2 {text}''"
    unfolding keys shown using look by auto
  show ?thesis using keys shown a' b by blast
qed

text \<open>
  Stored as a, c, b and shown as a, b, c: the two orders differ, yet with the first button
  highlighted the picked name and the highlighted name are both a.
\<close>

theorem picker_dispatch_by_insertion_order_counterexample:
  "selected_name (open_picker [(''a'', ''A {text}''), (''c'', ''C {text}''), (''b'', ''B {text}'')] 0)
     = Some ''a''
   \<and> highlighted_name (open_picker [(''a'', ''A {text}''), (''c'', ''C {text}''), (''b'', ''B {text}'')] 0)
     = Some ''a''
   \<and> submit (open_picker [(''a'', ''A {text}''), (''c'', ''C {text}''), (''b'', ''B {text}'')] 0) ''/''
     = Some ''A {text}''
   \<and> map fst (name_to_prompt
        (new_prompt_window [(''a'', ''A {text}''), (''c'', ''C {text}''), (''b'', ''B {text}'')]))
     = [''a'', ''c'', ''b'']
   \<and> sorted_prompt_names
        (new_prompt_window [(''a'', ''A {text}''), (''c'', ''C {text}''), (''b'', ''B {text}'')])
     = [''a'', ''b'', ''c'']"
  by code_simp

text \<open>
  Stored as beta, Alpha and shown as Alpha, beta: with the first button highlighted the
  button reads Alpha and the template of beta is dispatched.
\<close>

lemma picker_mismatch_example:
  "highlighted_name (open_picker [(''beta'', ''B {text}''), (''Alpha'', ''A {text}'')] 0) = Some ''Alpha''
   \<and> submit (open_picker [(''beta'', ''B {text}''), (''Alpha'', ''A {text}'')] 0) ''/'' = Some ''B {text}''"
  by code_simp

end
